theory Spec2Isabelle
  imports Main "HOL-Library.Word"
begin

section \<open>The chained page source of RPageStorageChain.cxx\<close>

text \<open>
  A shallow embedding of \<^verbatim>\<open>ROOT::Experimental::Detail::RPageSourceChain\<close>
  (tree/ntuple/v7/src/RPageStorageChain.cxx). The class composes several page sources
  into one; every member function of the file is a function on a record of the members.
  Exceptions and failed assertions are values of \<open>error\<close>; the calls the chain makes on
  its sources and the warnings it prints are appended to the member \<open>effects\<close>.
\<close>

subsection \<open>Integers, errors, vectors\<close>

text \<open>
  The integer typedefs live in RNTupleUtil.hxx, which is not part of the translated file:
  \<^verbatim>\<open>NTupleSize_t\<close> and \<^verbatim>\<open>DescriptorId_t\<close> are \<^verbatim>\<open>std::uint64_t\<close>,
  \<^verbatim>\<open>ClusterSize_t\<close> is \<^verbatim>\<open>std::uint32_t\<close>, \<^verbatim>\<open>std::size_t\<close> has 64 bits.
  Arithmetic on them wraps around. A pointer is a number, \<open>0\<close> the null pointer.
\<close>

type_synonym NTupleSize_t = "64 word"
type_synonym DescriptorId_t = "64 word"
type_synonym ClusterSize_t = "32 word"
type_synonym size_t = "64 word"
type_synonym ptr = nat

text \<open>
  \<open>std_out_of_range\<close> is the exception of \<^verbatim>\<open>std::vector::at\<close>; \<open>Fatal\<close> is a
  failed \<^verbatim>\<open>R__ASSERT\<close>, which reports through \<^verbatim>\<open>::Fatal\<close> and aborts; it
  carries the text of the assertion.
\<close>

datatype error = std_out_of_range | Fatal string

definition vector_at :: "'a list \<Rightarrow> nat \<Rightarrow> error + 'a" where
  "vector_at xs i = (if i < length xs then Inr (xs ! i) else Inl std_out_of_range)"

text \<open>The assignment \<^verbatim>\<open>v.at(i) = x\<close>.\<close>

definition vector_set :: "'a list \<Rightarrow> nat \<Rightarrow> 'a \<Rightarrow> error + 'a list" where
  "vector_set xs i x = (if i < length xs then Inr (xs[i := x]) else Inl std_out_of_range)"

text \<open>\<^verbatim>\<open>v.resize(n)\<close>: the first \<open>n\<close> elements stay, new ones are value-initialised.\<close>

definition vector_resize :: "nat \<Rightarrow> 'a \<Rightarrow> 'a list \<Rightarrow> 'a list" where
  "vector_resize n dflt xs = take n xs @ replicate (n - length xs) dflt"

subsection \<open>Descriptors\<close>

text \<open>
  Modelled from the spec: the descriptor classes (RNTupleDescriptor.hxx) are not part of
  the translated file. A descriptor exposes a field count, a column count, a field
  descriptor by id, a column descriptor by id, a cluster count and a cluster descriptor
  by id, which yields per column a range with a first element index and an element
  count. Ids are positions, as the chain itself assumes when it runs ids from \<open>0\<close> to
  the count and takes \<open>count - 1\<close> for the last cluster; an id with no descriptor raises
  \<open>std_out_of_range\<close>. Field and column descriptors are opaque (\<open>'f\<close>, \<open>'c\<close>), their
  \<^verbatim>\<open>operator==\<close> is equality. \<open>FindClusterId\<close> is the descriptor's own search for
  the cluster that holds an index of a column; it is a member here.
\<close>

record RColumnRange =
  fFirstElementIndex :: NTupleSize_t
  fNElements :: ClusterSize_t

record RClusterDescriptor =
  fColumnRanges :: "RColumnRange list"

record ('f, 'c) RNTupleDescriptor =
  fFieldDescriptors :: "'f list"
  fColumnDescriptors :: "'c list"
  fClusterDescriptors :: "RClusterDescriptor list"
  FindClusterId :: "DescriptorId_t \<Rightarrow> NTupleSize_t \<Rightarrow> error + DescriptorId_t"

definition GetNFields :: "('f, 'c) RNTupleDescriptor \<Rightarrow> size_t" where
  "GetNFields d = of_nat (length (fFieldDescriptors d))"

definition GetNColumns :: "('f, 'c) RNTupleDescriptor \<Rightarrow> size_t" where
  "GetNColumns d = of_nat (length (fColumnDescriptors d))"

definition GetNClusters :: "('f, 'c) RNTupleDescriptor \<Rightarrow> size_t" where
  "GetNClusters d = of_nat (length (fClusterDescriptors d))"

definition GetFieldDescriptor :: "('f, 'c) RNTupleDescriptor \<Rightarrow> DescriptorId_t \<Rightarrow> error + 'f" where
  "GetFieldDescriptor d i = vector_at (fFieldDescriptors d) (unat i)"

definition GetColumnDescriptor :: "('f, 'c) RNTupleDescriptor \<Rightarrow> DescriptorId_t \<Rightarrow> error + 'c" where
  "GetColumnDescriptor d i = vector_at (fColumnDescriptors d) (unat i)"

definition GetClusterDescriptor ::
  "('f, 'c) RNTupleDescriptor \<Rightarrow> DescriptorId_t \<Rightarrow> error + RClusterDescriptor" where
  "GetClusterDescriptor d i = vector_at (fClusterDescriptors d) (unat i)"

definition GetColumnRange :: "RClusterDescriptor \<Rightarrow> DescriptorId_t \<Rightarrow> error + RColumnRange" where
  "GetColumnRange cd i = vector_at (fColumnRanges cd) (unat i)"

subsection \<open>Pages\<close>

text \<open>
  Modelled from the spec: RPage.hxx is not part of the translated file. A page is a run
  of values of one column, windowed to an element range, with a cluster attribution
  (cluster id, first element index of that cluster for the column) and a backing buffer
  whose address identifies it. \<open>SetWindow\<close> rewrites the first element of the range and
  the attribution; a page with no buffer is null.
\<close>

record RClusterInfo =
  fClusterInfoId :: DescriptorId_t
  fSelfOffset :: NTupleSize_t

record RPage =
  fBuffer :: ptr
  fRangeFirst :: NTupleSize_t
  fNElementsPage :: ClusterSize_t
  fClusterInfo :: RClusterInfo

definition GetBuffer :: "RPage \<Rightarrow> ptr" where
  "GetBuffer p = fBuffer p"

definition IsNull :: "RPage \<Rightarrow> bool" where
  "IsNull p \<longleftrightarrow> fBuffer p = 0"

definition GetGlobalRangeFirst :: "RPage \<Rightarrow> NTupleSize_t" where
  "GetGlobalRangeFirst p = fRangeFirst p"

definition SetWindow :: "RPage \<Rightarrow> NTupleSize_t \<Rightarrow> RClusterInfo \<Rightarrow> RPage" where
  "SetWindow p rangeFirst clusterInfo = p\<lparr>fRangeFirst := rangeFirst, fClusterInfo := clusterInfo\<rparr>"

record ColumnHandle_t =
  fId :: DescriptorId_t
  fColumn :: ptr

record RClusterIndex =
  fClusterId :: DescriptorId_t
  fIndex :: ClusterSize_t

definition GetClusterId :: "RClusterIndex \<Rightarrow> DescriptorId_t" where
  "GetClusterId ci = fClusterId ci"

definition GetIndex :: "RClusterIndex \<Rightarrow> ClusterSize_t" where
  "GetIndex ci = fIndex ci"

subsection \<open>Sources\<close>

text \<open>
  Modelled from the spec: the single page sources (RPageStorage.hxx and its
  implementations) are not part of the translated file. A source is an object at an
  address with an entry count, a descriptor, and two page reads that return a page or
  fail; sources are taken attached, their descriptor loaded. \<open>RPageSource_Clone\<close> is
  the source's \<^verbatim>\<open>Clone()\<close>: an independent duplicate, a new object (at the address
  the allocation hands out) on the same backing storage. \<open>Attach\<close> loads header and
  footer; the duplicate of an attached source reads the same metadata.
\<close>

record ('f, 'c) RPageSource =
  srcAddr :: ptr
  GetNEntries :: NTupleSize_t
  GetDescriptor :: "('f, 'c) RNTupleDescriptor"
  srcPopulatePage :: "ColumnHandle_t \<Rightarrow> NTupleSize_t \<Rightarrow> error + RPage"
  srcPopulatePageCluster :: "ColumnHandle_t \<Rightarrow> RClusterIndex \<Rightarrow> error + RPage"

definition RPageSource_Clone :: "ptr \<Rightarrow> ('f, 'c) RPageSource \<Rightarrow> ('f, 'c) RPageSource" where
  "RPageSource_Clone a s = s\<lparr>srcAddr := a\<rparr>"

definition Attach :: "('f, 'c) RPageSource \<Rightarrow> ('f, 'c) RPageSource" where
  "Attach s = s"

subsection \<open>The chain\<close>

text \<open>
  What the chain does to the world outside it: a warning of \<^verbatim>\<open>R__WARNING_HERE\<close>, and
  the calls \<^verbatim>\<open>fSources.at(i)->PopulatePage(...)\<close> (both overloads) and
  \<^verbatim>\<open>fSources.at(i)->ReleasePage(page)\<close>, each with the index \<open>i\<close> of the source.
\<close>

datatype effect =
  Warning string
  | Call_PopulatePage nat ColumnHandle_t NTupleSize_t
  | Call_PopulatePageCluster nat ColumnHandle_t RClusterIndex
  | Call_ReleasePage nat RPage

text \<open>
  The members. \<open>fNTupleName\<close>, \<open>fOptions\<close> and \<open>fDescriptor\<close> are those of the base
  class \<^verbatim>\<open>RPageSource\<close>; \<open>fDescriptor\<close> is the merged descriptor that attaching
  the chain stores. \<open>fPageMapper\<close> is the \<^verbatim>\<open>std::unordered_map\<close> from a page's
  buffer to the index of the source that produced the page.
\<close>

record ('f, 'c, 'o) RPageSourceChain =
  fNTupleName :: string
  fOptions :: 'o
  fDescriptor :: "('f, 'c) RNTupleDescriptor"
  fSources :: "('f, 'c) RPageSource list"
  fUnsafe :: bool
  fNEntryPerSource :: "NTupleSize_t list"
  fNClusterPerSource :: "size_t list"
  fNElementsPerColumnPerSource :: "size_t list list"
  fPageMapper :: "ptr \<rightharpoonup> nat"
  effects :: "effect list"

definition warn :: "string \<Rightarrow> ('f, 'c, 'o) RPageSourceChain \<Rightarrow> ('f, 'c, 'o) RPageSourceChain" where
  "warn msg c = c\<lparr>effects := effects c @ [Warning msg]\<rparr>"

subsection \<open>CompareFileMetaData\<close>

definition msg_counts :: string where
  "msg_counts = ''The meta-data (number of fields and columns) of the files do not match. Using this reader may result in undefined behaviour!\<newline>''"

definition msg_fields :: string where
  "msg_fields = ''The meta-data of the fields of the files do not match. Using this reader may result in undefined behaviour!\<newline>''"

definition msg_columns :: string where
  "msg_columns = ''The meta-data of the columns of the files do not match. Using this reader may result in undefined behaviour!\<newline>''"

text \<open>The loop over \<open>j\<close> that compares all field descriptors; it stops at the first that differs.\<close>

function compare_fields ::
  "nat \<Rightarrow> ('f, 'c) RNTupleDescriptor \<Rightarrow> ('f, 'c) RNTupleDescriptor \<Rightarrow>
   ('f, 'c, 'o) RPageSourceChain \<Rightarrow> error + ('f, 'c, 'o) RPageSourceChain" where
  "compare_fields j d0 di c =
     (if j < unat (GetNFields d0) then
        (case GetFieldDescriptor d0 (of_nat j) of
           Inl e \<Rightarrow> Inl e
         | Inr f0 \<Rightarrow>
        (case GetFieldDescriptor di (of_nat j) of
           Inl e \<Rightarrow> Inl e
         | Inr fi \<Rightarrow>
             if \<not> (f0 = fi) then Inr ((warn msg_fields c)\<lparr>fUnsafe := True\<rparr>)
             else compare_fields (j + 1) d0 di c))
      else Inr c)"
  by pat_completeness auto
termination
  by (relation "measure (\<lambda>(j, d0, di, c). unat (GetNFields d0) - j)") auto

declare compare_fields.simps [simp del]

text \<open>The loop over \<open>j\<close> that compares all column descriptors.\<close>

function compare_columns ::
  "nat \<Rightarrow> ('f, 'c) RNTupleDescriptor \<Rightarrow> ('f, 'c) RNTupleDescriptor \<Rightarrow>
   ('f, 'c, 'o) RPageSourceChain \<Rightarrow> error + ('f, 'c, 'o) RPageSourceChain" where
  "compare_columns j d0 di c =
     (if j < unat (GetNColumns d0) then
        (case GetColumnDescriptor d0 (of_nat j) of
           Inl e \<Rightarrow> Inl e
         | Inr c0 \<Rightarrow>
        (case GetColumnDescriptor di (of_nat j) of
           Inl e \<Rightarrow> Inl e
         | Inr ci \<Rightarrow>
             if \<not> (c0 = ci) then Inr ((warn msg_columns c)\<lparr>fUnsafe := True\<rparr>)
             else compare_columns (j + 1) d0 di c))
      else Inr c)"
  by pat_completeness auto
termination
  by (relation "measure (\<lambda>(j, d0, di, c). unat (GetNColumns d0) - j)") auto

declare compare_columns.simps [simp del]

text \<open>
  The loop over the sources \<open>i = 1, 2, ...\<close>; \<open>srcs\<close> is \<open>fSources\<close>, which the loop
  does not change. Each \<^verbatim>\<open>break\<close> of the outer loop returns.
\<close>

function compare_sources ::
  "nat \<Rightarrow> ('f, 'c) RPageSource list \<Rightarrow> ('f, 'c, 'o) RPageSourceChain \<Rightarrow>
   error + ('f, 'c, 'o) RPageSourceChain" where
  "compare_sources i srcs c =
     (if i < length srcs then
        (case vector_at srcs 0 of
           Inl e \<Rightarrow> Inl e
         | Inr s0 \<Rightarrow>
        (case vector_at srcs i of
           Inl e \<Rightarrow> Inl e
         | Inr si \<Rightarrow>
             if GetNFields (GetDescriptor s0) \<noteq> GetNFields (GetDescriptor si) \<or>
                GetNColumns (GetDescriptor s0) \<noteq> GetNColumns (GetDescriptor si)
             then Inr ((warn msg_counts c)\<lparr>fUnsafe := True\<rparr>)
             else
               (case compare_fields 0 (GetDescriptor s0) (GetDescriptor si) c of
                  Inl e \<Rightarrow> Inl e
                | Inr c1 \<Rightarrow>
                    if fUnsafe c1 then Inr c1
                    else
                      (case compare_columns 0 (GetDescriptor s0) (GetDescriptor si) c1 of
                         Inl e \<Rightarrow> Inl e
                       | Inr c2 \<Rightarrow>
                           if fUnsafe c2 then Inr c2
                           else compare_sources (i + 1) srcs c2))))
      else Inr c)"
  by pat_completeness auto
termination
  by (relation "measure (\<lambda>(i, srcs, c). length srcs - i)") auto

declare compare_sources.simps [simp del]

definition CompareFileMetaData ::
  "('f, 'c, 'o) RPageSourceChain \<Rightarrow> error + ('f, 'c, 'o) RPageSourceChain" where
  "CompareFileMetaData c = compare_sources 1 (fSources c) c"

subsection \<open>InitializeVariables\<close>

text \<open>
  The first loop: \<open>es\<close> is \<open>fNEntryPerSource\<close>, \<open>cs\<close> is \<open>fNClusterPerSource\<close>.
\<close>

function fill_counts ::
  "nat \<Rightarrow> ('f, 'c) RPageSource list \<Rightarrow> NTupleSize_t list \<Rightarrow> size_t list \<Rightarrow>
   error + (NTupleSize_t list \<times> size_t list)" where
  "fill_counts i srcs es cs =
     (if i < length srcs then
        (case vector_at es i of
           Inl e \<Rightarrow> Inl e
         | Inr ei \<Rightarrow>
        (case vector_at srcs i of
           Inl e \<Rightarrow> Inl e
         | Inr si \<Rightarrow>
        (case vector_set es (i + 1) (ei + GetNEntries si) of
           Inl e \<Rightarrow> Inl e
         | Inr es' \<Rightarrow>
        (case vector_at cs i of
           Inl e \<Rightarrow> Inl e
         | Inr ci \<Rightarrow>
        (case vector_set cs (i + 1) (ci + GetNClusters (GetDescriptor si)) of
           Inl e \<Rightarrow> Inl e
         | Inr cs' \<Rightarrow> fill_counts (i + 1) srcs es' cs')))))
      else Inr (es, cs))"
  by pat_completeness auto
termination
  by (relation "measure (\<lambda>(i, srcs, es, cs). length srcs - i)") auto

declare fill_counts.simps [simp del]

text \<open>The loop that zeroes row \<open>0\<close> of \<open>fNElementsPerColumnPerSource\<close>.\<close>

function zero_first_row :: "nat \<Rightarrow> nat \<Rightarrow> size_t list list \<Rightarrow> error + size_t list list" where
  "zero_first_row i nColumns tbl =
     (if i < nColumns then
        (case vector_at tbl 0 of
           Inl e \<Rightarrow> Inl e
         | Inr row0 \<Rightarrow>
        (case vector_set row0 i 0 of
           Inl e \<Rightarrow> Inl e
         | Inr row0' \<Rightarrow> zero_first_row (i + 1) nColumns (tbl[0 := row0'])))
      else Inr tbl)"
  by pat_completeness auto
termination
  by (relation "measure (\<lambda>(i, nColumns, tbl). nColumns - i)") auto

declare zero_first_row.simps [simp del]

text \<open>
  The inner loop over the columns \<open>j\<close> for source \<open>i\<close>. \<open>lastClusterId\<close> is computed
  in \<^verbatim>\<open>std::size_t\<close>: with no cluster it is \<open>0 - 1 = 2 ^ 64 - 1\<close>.
\<close>

function fill_row ::
  "nat \<Rightarrow> nat \<Rightarrow> nat \<Rightarrow> ('f, 'c) RPageSource list \<Rightarrow> size_t list list \<Rightarrow>
   error + size_t list list" where
  "fill_row j nColumns i srcs tbl =
     (if j < nColumns then
        (case vector_at srcs i of
           Inl e \<Rightarrow> Inl e
         | Inr si \<Rightarrow>
        (let lastClusterId = GetNClusters (GetDescriptor si) - 1 in
        (case GetClusterDescriptor (GetDescriptor si) lastClusterId of
           Inl e \<Rightarrow> Inl e
         | Inr cd \<Rightarrow>
        (case GetColumnRange cd (of_nat j) of
           Inl e \<Rightarrow> Inl e
         | Inr columnDescript \<Rightarrow>
        (case vector_at tbl i of
           Inl e \<Rightarrow> Inl e
         | Inr rowi \<Rightarrow>
        (case vector_at rowi j of
           Inl e \<Rightarrow> Inl e
         | Inr prev \<Rightarrow>
        (case vector_at tbl (i + 1) of
           Inl e \<Rightarrow> Inl e
         | Inr rowi1 \<Rightarrow>
        (case vector_set rowi1 j
                (fFirstElementIndex columnDescript + ucast (fNElements columnDescript) + prev) of
           Inl e \<Rightarrow> Inl e
         | Inr rowi1' \<Rightarrow> fill_row (j + 1) nColumns i srcs (tbl[i + 1 := rowi1'])))))))))
      else Inr tbl)"
  by pat_completeness auto
termination
  by (relation "measure (\<lambda>(j, nColumns, i, srcs, tbl). nColumns - j)") auto

declare fill_row.simps [simp del]

text \<open>The outer loop over the sources \<open>i\<close>.\<close>

function fill_rows ::
  "nat \<Rightarrow> nat \<Rightarrow> ('f, 'c) RPageSource list \<Rightarrow> size_t list list \<Rightarrow> error + size_t list list" where
  "fill_rows i nColumns srcs tbl =
     (if i < length srcs then
        (case fill_row 0 nColumns i srcs tbl of
           Inl e \<Rightarrow> Inl e
         | Inr tbl' \<Rightarrow> fill_rows (i + 1) nColumns srcs tbl')
      else Inr tbl)"
  by pat_completeness auto
termination
  by (relation "measure (\<lambda>(i, nColumns, srcs, tbl). length srcs - i)") auto

declare fill_rows.simps [simp del]

text \<open>
  The body of \<^verbatim>\<open>InitializeVariables\<close> on the three vectors it writes, given the
  sources it reads.
\<close>

definition build_tables ::
  "('f, 'c) RPageSource list \<Rightarrow> NTupleSize_t list \<Rightarrow> size_t list \<Rightarrow> size_t list list \<Rightarrow>
   error + (NTupleSize_t list \<times> size_t list \<times> size_t list list)" where
  "build_tables srcs es cs els =
     (let es1 = vector_resize (length srcs + 1) 0 es;
          cs1 = vector_resize (length srcs + 1) 0 cs in
      (case vector_set es1 0 0 of
         Inl e \<Rightarrow> Inl e
       | Inr es2 \<Rightarrow>
      (case vector_set cs1 0 0 of
         Inl e \<Rightarrow> Inl e
       | Inr cs2 \<Rightarrow>
      (case fill_counts 0 srcs es2 cs2 of
         Inl e \<Rightarrow> Inl e
       | Inr (es3, cs3) \<Rightarrow>
      (case vector_at srcs 0 of
         Inl e \<Rightarrow> Inl e
       | Inr s0 \<Rightarrow>
          (let nColumns = unat (GetNColumns (GetDescriptor s0));
               els1 = map (vector_resize nColumns 0) (vector_resize (length srcs + 1) [] els) in
           (case zero_first_row 0 nColumns els1 of
              Inl e \<Rightarrow> Inl e
            | Inr els2 \<Rightarrow>
           (case fill_rows 0 nColumns srcs els2 of
              Inl e \<Rightarrow> Inl e
            | Inr els3 \<Rightarrow> Inr (es3, cs3, els3)))))))))"

definition InitializeVariables ::
  "('f, 'c, 'o) RPageSourceChain \<Rightarrow> error + ('f, 'c, 'o) RPageSourceChain" where
  "InitializeVariables c =
     (case build_tables (fSources c) (fNEntryPerSource c) (fNClusterPerSource c)
             (fNElementsPerColumnPerSource c) of
        Inl e \<Rightarrow> Inl e
      | Inr (es, cs, els) \<Rightarrow>
          Inr (c\<lparr>fNEntryPerSource := es, fNClusterPerSource := cs,
                 fNElementsPerColumnPerSource := els\<rparr>))"

subsection \<open>Constructors and Clone\<close>

text \<open>
  The members before a constructor's body runs: the base class has the name and the
  options, its descriptor is empty, the vectors and the map are empty, and \<open>fUnsafe\<close>
  has its default \<open>false\<close>. Nothing has happened yet.
\<close>

definition empty_descriptor :: "('f, 'c) RNTupleDescriptor" where
  "empty_descriptor =
     \<lparr>fFieldDescriptors = [], fColumnDescriptors = [], fClusterDescriptors = [],
      FindClusterId = (\<lambda>columnId index. Inr (- 1))\<rparr>"

definition members_init ::
  "string \<Rightarrow> ('f, 'c) RPageSource list \<Rightarrow> 'o \<Rightarrow> ('f, 'c, 'o) RPageSourceChain" where
  "members_init ntupleName sources options =
     \<lparr>fNTupleName = ntupleName, fOptions = options, fDescriptor = empty_descriptor,
      fSources = sources, fUnsafe = False, fNEntryPerSource = [], fNClusterPerSource = [],
      fNElementsPerColumnPerSource = [], fPageMapper = Map.empty, effects = []\<rparr>"

text \<open>
  The constructor that takes ownership of the sources
  (\<^verbatim>\<open>std::vector<std::unique_ptr<RPageSource>> &&\<close>).
\<close>

definition RPageSourceChain_owned ::
  "string \<Rightarrow> ('f, 'c) RPageSource list \<Rightarrow> 'o \<Rightarrow> error + ('f, 'c, 'o) RPageSourceChain" where
  "RPageSourceChain_owned ntupleName sources options =
     (case CompareFileMetaData (members_init ntupleName sources options) of
        Inl e \<Rightarrow> Inl e
      | Inr c \<Rightarrow> InitializeVariables c)"

text \<open>
  The constructor that takes \<^verbatim>\<open>std::vector<RPageSource *>\<close>: its loop puts
  \<^verbatim>\<open>s->Clone()\<close> into \<open>fSources\<close> and attaches it. \<open>heap\<close> is the next address the
  allocator hands out; the loop returns the one after its last allocation.
\<close>

fun clone_sources ::
  "ptr \<Rightarrow> ('f, 'c) RPageSource list \<Rightarrow> ('f, 'c) RPageSource list \<times> ptr" where
  "clone_sources heap [] = ([], heap)"
| "clone_sources heap (s # sources) =
     (let (rest, heap') = clone_sources (heap + 1) sources
      in (Attach (RPageSource_Clone heap s) # rest, heap'))"

definition RPageSourceChain_cloning ::
  "ptr \<Rightarrow> string \<Rightarrow> ('f, 'c) RPageSource list \<Rightarrow> 'o \<Rightarrow>
   error + (('f, 'c, 'o) RPageSourceChain \<times> ptr)" where
  "RPageSourceChain_cloning heap ntupleName sources options =
     (let (clones, heap') = clone_sources heap sources in
      (case CompareFileMetaData (members_init ntupleName clones options) of
         Inl e \<Rightarrow> Inl e
       | Inr c \<Rightarrow>
      (case InitializeVariables c of
         Inl e \<Rightarrow> Inl e
       | Inr c' \<Rightarrow> Inr (c', heap'))))"

text \<open>
  The constructor that takes locations: \<^verbatim>\<open>Create(ntupleName, location, options)\<close> is
  a factory of the source classes, outside the translated file, and a parameter here; each
  source it makes is attached. The constructor does not look whether \<open>locationVec\<close> is
  empty: its comment leaves that to \<^verbatim>\<open>RNTupleReader::Open\<close>.
\<close>

definition RPageSourceChain_locations ::
  "(string \<Rightarrow> string \<Rightarrow> 'o \<Rightarrow> ('f, 'c) RPageSource) \<Rightarrow> string \<Rightarrow> string list \<Rightarrow> 'o \<Rightarrow>
   error + ('f, 'c, 'o) RPageSourceChain" where
  "RPageSourceChain_locations Create ntupleName locationVec options =
     (let sources = map (\<lambda>location. Attach (Create ntupleName location options)) locationVec in
      (case CompareFileMetaData (members_init ntupleName sources options) of
         Inl e \<Rightarrow> Inl e
       | Inr c \<Rightarrow> InitializeVariables c))"

text \<open>
  \<^verbatim>\<open>Clone\<close>: \<open>sourceVec\<close> holds the raw pointers \<^verbatim>\<open>s.get()\<close> to the chain's own
  sources, and the new chain is made by the constructor above.
\<close>

definition Clone ::
  "ptr \<Rightarrow> ('f, 'c, 'o) RPageSourceChain \<Rightarrow> error + (('f, 'c, 'o) RPageSourceChain \<times> ptr)" where
  "Clone heap c = RPageSourceChain_cloning heap (fNTupleName c) (fSources c) (fOptions c)"

subsection \<open>PopulatePage\<close>

text \<open>
  The scan \<^verbatim>\<open>for (; sourceIndex < fSources.size(); ++sourceIndex)\<close> of both
  overloads: it stops at the first \<open>sourceIndex\<close> whose upper bound in the table
  exceeds the index, or at \<open>fSources.size()\<close>.
\<close>

function find_source :: "nat \<Rightarrow> nat \<Rightarrow> 64 word \<Rightarrow> 64 word list \<Rightarrow> error + nat" where
  "find_source sourceIndex n globalIndex tbl =
     (if sourceIndex < n then
        (case vector_at tbl (sourceIndex + 1) of
           Inl e \<Rightarrow> Inl e
         | Inr bound \<Rightarrow>
             if globalIndex < bound then Inr sourceIndex
             else find_source (sourceIndex + 1) n globalIndex tbl)
      else Inr sourceIndex)"
  by pat_completeness auto
termination
  by (relation "measure (\<lambda>(sourceIndex, n, globalIndex, tbl). n - sourceIndex)") auto

declare find_source.simps [simp del]

text \<open>\<^verbatim>\<open>fPageMapper.emplace(key, value)\<close>: a key that is present keeps its value.\<close>

definition emplace :: "(ptr \<rightharpoonup> nat) \<Rightarrow> ptr \<Rightarrow> nat \<Rightarrow> (ptr \<rightharpoonup> nat)" where
  "emplace m k v = (case m k of None \<Rightarrow> m(k \<mapsto> v) | Some old \<Rightarrow> m)"

definition msg_globalIndex :: string where
  "msg_globalIndex = ''globalIndex is bigger than total number of entries.''"

definition msg_clusterIndex :: string where
  "msg_clusterIndex = ''clusterIndex is bigger than total number of entries.''"

definition msg_release :: string where
  "msg_release = ''Page could not be assigned to source and released.''"

text \<open>
  The shared tail of both overloads, from \<^verbatim>\<open>fPageMapper.emplace\<close> on: \<open>clusterId\<close>
  is the global cluster id of the attribution. An exception leaves the members as they
  are at that point, so the result is paired with the chain.
\<close>

definition rewindow ::
  "('f, 'c, 'o) RPageSourceChain \<Rightarrow> ColumnHandle_t \<Rightarrow> nat \<Rightarrow> RPage \<Rightarrow> DescriptorId_t \<Rightarrow>
   (error + RPage) \<times> ('f, 'c, 'o) RPageSourceChain" where
  "rewindow c columnHandle sourceIndex page clusterId =
     (case GetClusterDescriptor (fDescriptor c) clusterId of
        Inl e \<Rightarrow> (Inl e, c)
      | Inr cd \<Rightarrow>
     (case GetColumnRange cd (fId columnHandle) of
        Inl e \<Rightarrow> (Inl e, c)
      | Inr columnRange \<Rightarrow>
          (let selfOffset = fFirstElementIndex columnRange;
               clusterInfo = \<lparr>fClusterInfoId = clusterId, fSelfOffset = selfOffset\<rparr> in
           (case vector_at (fNElementsPerColumnPerSource c) sourceIndex of
              Inl e \<Rightarrow> (Inl e, c)
            | Inr row \<Rightarrow>
           (case vector_at row (unat (fId columnHandle)) of
              Inl e \<Rightarrow> (Inl e, c)
            | Inr base \<Rightarrow>
                (Inr (SetWindow page (GetGlobalRangeFirst page + base) clusterInfo), c))))))"

text \<open>\<^verbatim>\<open>PopulatePage(ColumnHandle_t, NTupleSize_t)\<close>.\<close>

definition PopulatePage ::
  "('f, 'c, 'o) RPageSourceChain \<Rightarrow> ColumnHandle_t \<Rightarrow> NTupleSize_t \<Rightarrow>
   (error + RPage) \<times> ('f, 'c, 'o) RPageSourceChain" where
  "PopulatePage c columnHandle globalIndex =
     (case find_source 0 (length (fSources c)) globalIndex (fNEntryPerSource c) of
        Inl e \<Rightarrow> (Inl e, c)
      | Inr sourceIndex \<Rightarrow>
          if \<not> (sourceIndex \<noteq> length (fSources c)) then (Inl (Fatal msg_globalIndex), c)
          else
            (case vector_at (fSources c) sourceIndex of
               Inl e \<Rightarrow> (Inl e, c)
             | Inr src \<Rightarrow>
            (case vector_at (fNEntryPerSource c) sourceIndex of
               Inl e \<Rightarrow> (Inl e, c)
             | Inr base \<Rightarrow>
                (let c1 = c\<lparr>effects := effects c @
                             [Call_PopulatePage sourceIndex columnHandle (globalIndex - base)]\<rparr> in
                 (case srcPopulatePage src columnHandle (globalIndex - base) of
                    Inl e \<Rightarrow> (Inl e, c1)
                  | Inr page \<Rightarrow>
                      (let c2 = c1\<lparr>fPageMapper :=
                                   emplace (fPageMapper c1) (GetBuffer page) sourceIndex\<rparr> in
                       (case FindClusterId (fDescriptor c2) (fId columnHandle) globalIndex of
                          Inl e \<Rightarrow> (Inl e, c2)
                        | Inr clusterId \<Rightarrow>
                            rewindow c2 columnHandle sourceIndex page clusterId)))))))"

text \<open>\<^verbatim>\<open>PopulatePage(ColumnHandle_t, const RClusterIndex &)\<close>.\<close>

definition PopulatePageCluster ::
  "('f, 'c, 'o) RPageSourceChain \<Rightarrow> ColumnHandle_t \<Rightarrow> RClusterIndex \<Rightarrow>
   (error + RPage) \<times> ('f, 'c, 'o) RPageSourceChain" where
  "PopulatePageCluster c columnHandle clusterIndex =
     (let clusterId = GetClusterId clusterIndex in
      (case find_source 0 (length (fSources c)) clusterId (fNClusterPerSource c) of
         Inl e \<Rightarrow> (Inl e, c)
       | Inr sourceIndex \<Rightarrow>
           if \<not> (sourceIndex \<noteq> length (fSources c)) then (Inl (Fatal msg_clusterIndex), c)
           else
             (case vector_at (fNClusterPerSource c) sourceIndex of
                Inl e \<Rightarrow> (Inl e, c)
              | Inr base \<Rightarrow>
                 (let newClusterIndex =
                        \<lparr>fClusterId = GetClusterId clusterIndex - base,
                         fIndex = GetIndex clusterIndex\<rparr> in
                  (case vector_at (fSources c) sourceIndex of
                     Inl e \<Rightarrow> (Inl e, c)
                   | Inr src \<Rightarrow>
                      (let c1 = c\<lparr>effects := effects c @
                                   [Call_PopulatePageCluster sourceIndex columnHandle newClusterIndex]\<rparr> in
                       (case srcPopulatePageCluster src columnHandle newClusterIndex of
                          Inl e \<Rightarrow> (Inl e, c1)
                        | Inr page \<Rightarrow>
                            (let c2 = c1\<lparr>fPageMapper :=
                                         emplace (fPageMapper c1) (GetBuffer page) sourceIndex\<rparr>
                             in rewindow c2 columnHandle sourceIndex page clusterId))))))))"

subsection \<open>ReleasePage\<close>

text \<open>
  The loop over \<open>fPageMapper\<close> looks for the entry whose key is the page's buffer; keys
  of the map are unique, so it is a lookup. The source's own \<^verbatim>\<open>ReleasePage\<close> is
  recorded as an effect; the page is taken to come back from it unchanged.
\<close>

definition ReleasePage ::
  "('f, 'c, 'o) RPageSourceChain \<Rightarrow> RPage \<Rightarrow> (error + unit) \<times> ('f, 'c, 'o) RPageSourceChain" where
  "ReleasePage c page =
     (if IsNull page then (Inr (), c)
      else
        (case fPageMapper c (GetBuffer page) of
           Some sourceIndex \<Rightarrow>
             (case vector_at (fSources c) sourceIndex of
                Inl e \<Rightarrow> (Inl e, c)
              | Inr src \<Rightarrow>
                  (Inr (), c\<lparr>effects := effects c @ [Call_ReleasePage sourceIndex page],
                             fPageMapper := (fPageMapper c)(GetBuffer page := None)\<rparr>))
         | None \<Rightarrow> (Inl (Fatal msg_release), c)))"

section \<open>Notions for the properties\<close>

subsection \<open>Tables and tracker\<close>

text \<open>
  The number a source adds to a column's element base: first element index plus element
  count of the column's range in the source's cluster with the highest id,
  \<open>GetNClusters - 1\<close>.
\<close>

definition elements_of_last_cluster :: "('f, 'c) RPageSource \<Rightarrow> nat \<Rightarrow> error + size_t" where
  "elements_of_last_cluster s j =
     (case GetClusterDescriptor (GetDescriptor s) (GetNClusters (GetDescriptor s) - 1) of
        Inl e \<Rightarrow> Inl e
      | Inr cd \<Rightarrow>
          (case GetColumnRange cd (of_nat j) of
             Inl e \<Rightarrow> Inl e
           | Inr cr \<Rightarrow> Inr (fFirstElementIndex cr + ucast (fNElements cr))))"

text \<open>The entries and the clusters of all sources, counted without a width.\<close>

definition total_entries :: "('f, 'c) RPageSource list \<Rightarrow> nat" where
  "total_entries srcs = sum_list (map (\<lambda>s. unat (GetNEntries s)) srcs)"

definition total_clusters :: "('f, 'c) RPageSource list \<Rightarrow> nat" where
  "total_clusters srcs = sum_list (map (\<lambda>s. length (fClusterDescriptors (GetDescriptor s))) srcs)"

text \<open>
  The class invariant on the three tables: they are what a constructor computed from the
  sources. No member function writes \<open>fSources\<close> or a table after construction.
\<close>

definition tables_built :: "('f, 'c, 'o) RPageSourceChain \<Rightarrow> bool" where
  "tables_built c \<longleftrightarrow>
     build_tables (fSources c) [] [] [] =
       Inr (fNEntryPerSource c, fNClusterPerSource c, fNElementsPerColumnPerSource c)"

text \<open>
  The tracker names only sources of the chain: every index in \<open>fPageMapper\<close> is below
  \<open>fSources.size()\<close>. The map is empty after construction, \<open>emplace\<close> is given a
  \<open>sourceIndex\<close> that passed the assertion, and nothing else adds to it.
\<close>

definition tracker_valid :: "('f, 'c, 'o) RPageSourceChain \<Rightarrow> bool" where
  "tracker_valid c \<longleftrightarrow> (\<forall>i\<in>ran (fPageMapper c). i < length (fSources c))"

text \<open>
  Two lists of sources with the same metadata: as many sources, and at each position the
  same entry count and the same descriptor.
\<close>

definition same_metadata :: "('f, 'c) RPageSource list \<Rightarrow> ('f, 'c) RPageSource list \<Rightarrow> bool" where
  "same_metadata srcs' srcs \<longleftrightarrow>
     length srcs' = length srcs \<and>
     (\<forall>k<length srcs. GetNEntries (srcs' ! k) = GetNEntries (srcs ! k) \<and>
                       GetDescriptor (srcs' ! k) = GetDescriptor (srcs ! k))"

subsection \<open>The compatibility check in words\<close>

text \<open>
  The compatibility check in the spec's words: a source is compared with source 0 by
  field and column count first, then field descriptor by field descriptor, then column
  descriptor by column descriptor; \<open>first_difference\<close> is the diagnostic of the first
  of these steps that finds a mismatch. \<open>degrade\<close> sets the flag and prints the
  diagnostic. \<open>check_against\<close> goes through the sources after source 0 in order and
  stops at the first that differs.
\<close>

definition fields_differ :: "('f, 'c) RNTupleDescriptor \<Rightarrow> ('f, 'c) RNTupleDescriptor \<Rightarrow> bool" where
  "fields_differ d0 di \<longleftrightarrow>
     (\<exists>j<unat (GetNFields d0). GetFieldDescriptor d0 (of_nat j) \<noteq> GetFieldDescriptor di (of_nat j))"

definition columns_differ :: "('f, 'c) RNTupleDescriptor \<Rightarrow> ('f, 'c) RNTupleDescriptor \<Rightarrow> bool" where
  "columns_differ d0 di \<longleftrightarrow>
     (\<exists>j<unat (GetNColumns d0). GetColumnDescriptor d0 (of_nat j) \<noteq> GetColumnDescriptor di (of_nat j))"

definition first_difference ::
  "('f, 'c) RNTupleDescriptor \<Rightarrow> ('f, 'c) RNTupleDescriptor \<Rightarrow> string option" where
  "first_difference d0 di =
     (if GetNFields d0 \<noteq> GetNFields di \<or> GetNColumns d0 \<noteq> GetNColumns di then Some msg_counts
      else if fields_differ d0 di then Some msg_fields
      else if columns_differ d0 di then Some msg_columns
      else None)"

definition degrade :: "string \<Rightarrow> ('f, 'c, 'o) RPageSourceChain \<Rightarrow> ('f, 'c, 'o) RPageSourceChain" where
  "degrade msg c = (warn msg c)\<lparr>fUnsafe := True\<rparr>"

fun check_against ::
  "('f, 'c) RNTupleDescriptor \<Rightarrow> ('f, 'c) RPageSource list \<Rightarrow>
   ('f, 'c, 'o) RPageSourceChain \<Rightarrow> ('f, 'c, 'o) RPageSourceChain" where
  "check_against d0 [] c = c"
| "check_against d0 (s # rest) c =
     (case first_difference d0 (GetDescriptor s) of
        Some msg \<Rightarrow> degrade msg c
      | None \<Rightarrow> check_against d0 rest c)"

subsection \<open>The states of a chain\<close>

text \<open>
  The states of a chain: what a constructor returns, and from there what attaching the
  chain and the three member functions leave behind. Attaching stores in
  \<open>fDescriptor\<close> the descriptor that \<^verbatim>\<open>DoAttach\<close> has the descriptor builder merge
  from the sources; the builder is outside the translated file, so any descriptor may
  come.
\<close>

inductive reachable :: "('f, 'c, 'o) RPageSourceChain \<Rightarrow> bool" where
  owned: "RPageSourceChain_owned ntupleName sources options = Inr c \<Longrightarrow> reachable c"
| cloning:
    "RPageSourceChain_cloning heap ntupleName sources options = Inr (c, heap') \<Longrightarrow> reachable c"
| locations:
    "RPageSourceChain_locations Create ntupleName locationVec options = Inr c \<Longrightarrow> reachable c"
| attach: "reachable c \<Longrightarrow> reachable (c\<lparr>fDescriptor := d\<rparr>)"
| populate: "reachable c \<Longrightarrow> reachable (snd (PopulatePage c columnHandle globalIndex))"
| populate_cluster:
    "reachable c \<Longrightarrow> reachable (snd (PopulatePageCluster c columnHandle clusterIndex))"
| release: "reachable c \<Longrightarrow> reachable (snd (ReleasePage c page))"

section \<open>Examples\<close>

subsection \<open>Two sources and their chain\<close>

text \<open>
  Source A has 100 entries in two clusters, source B has 50 entries in one cluster. Both
  have one field and one column; column 0 of A's last cluster covers the elements from 90
  on, ten of them. A page a source returns starts at the element asked for. \<open>exMerged\<close>
  is the descriptor of the chain of A and B: B's cluster comes third, from element 100.
\<close>

definition exDescA :: "(string, string) RNTupleDescriptor" where
  "exDescA =
     \<lparr>fFieldDescriptors = [''pt''], fColumnDescriptors = [''pt.0''],
      fClusterDescriptors =
        [\<lparr>fColumnRanges = [\<lparr>fFirstElementIndex = 0, fNElements = 90\<rparr>]\<rparr>,
         \<lparr>fColumnRanges = [\<lparr>fFirstElementIndex = 90, fNElements = 10\<rparr>]\<rparr>],
      FindClusterId = (\<lambda>columnId index. Inr (if index < 90 then 0 else 1))\<rparr>"

definition exDescB :: "(string, string) RNTupleDescriptor" where
  "exDescB =
     \<lparr>fFieldDescriptors = [''pt''], fColumnDescriptors = [''pt.0''],
      fClusterDescriptors = [\<lparr>fColumnRanges = [\<lparr>fFirstElementIndex = 0, fNElements = 50\<rparr>]\<rparr>],
      FindClusterId = (\<lambda>columnId index. Inr 0)\<rparr>"

definition exMerged :: "(string, string) RNTupleDescriptor" where
  "exMerged =
     \<lparr>fFieldDescriptors = [''pt''], fColumnDescriptors = [''pt.0''],
      fClusterDescriptors =
        [\<lparr>fColumnRanges = [\<lparr>fFirstElementIndex = 0, fNElements = 90\<rparr>]\<rparr>,
         \<lparr>fColumnRanges = [\<lparr>fFirstElementIndex = 90, fNElements = 10\<rparr>]\<rparr>,
         \<lparr>fColumnRanges = [\<lparr>fFirstElementIndex = 100, fNElements = 50\<rparr>]\<rparr>],
      FindClusterId =
        (\<lambda>columnId index. Inr (if index < 90 then 0 else if index < 100 then 1 else 2))\<rparr>"

definition exPage :: "ptr \<Rightarrow> NTupleSize_t \<Rightarrow> RPage" where
  "exPage buffer first =
     \<lparr>fBuffer = buffer, fRangeFirst = first, fNElementsPage = 1,
      fClusterInfo = \<lparr>fClusterInfoId = 0, fSelfOffset = 0\<rparr>\<rparr>"

definition exA :: "(string, string) RPageSource" where
  "exA =
     \<lparr>srcAddr = 1, GetNEntries = 100, GetDescriptor = exDescA,
      srcPopulatePage = (\<lambda>columnHandle index. Inr (exPage 4096 index)),
      srcPopulatePageCluster =
        (\<lambda>columnHandle clusterIndex.
           Inr (exPage 4096 ((if fClusterId clusterIndex = 0 then 0 else 90) +
                             ucast (fIndex clusterIndex))))\<rparr>"

definition exB :: "(string, string) RPageSource" where
  "exB =
     \<lparr>srcAddr = 2, GetNEntries = 50, GetDescriptor = exDescB,
      srcPopulatePage = (\<lambda>columnHandle index. Inr (exPage 8192 index)),
      srcPopulatePageCluster =
        (\<lambda>columnHandle clusterIndex. Inr (exPage 8192 (ucast (fIndex clusterIndex))))\<rparr>"

definition exInit :: "(string, string, nat) RPageSourceChain" where
  "exInit = members_init ''events'' [exA, exB] 0"

definition exBuilt :: "(string, string, nat) RPageSourceChain" where
  "exBuilt =
     exInit\<lparr>fNEntryPerSource := [0, 100, 150], fNClusterPerSource := [0, 2, 3],
            fNElementsPerColumnPerSource := [[0], [100], [150]]\<rparr>"

definition exChain :: "(string, string, nat) RPageSourceChain" where
  "exChain = exBuilt\<lparr>fDescriptor := exMerged\<rparr>"

definition exHandle :: ColumnHandle_t where
  "exHandle = \<lparr>fId = 0, fColumn = 512\<rparr>"

text \<open>
  The cluster index of entry 5 of the third cluster, and one of a cluster past the last.
  \<open>exTracked\<close> is the chain after one page read from source B, \<open>exPage120\<close> the
  page that the read at global entry 120 returns, \<open>exReleased\<close> the chain after the
  page went back.
\<close>

definition exClusterIndex :: RClusterIndex where
  "exClusterIndex = \<lparr>fClusterId = 2, fIndex = 5\<rparr>"

definition exBeyond :: RClusterIndex where
  "exBeyond = \<lparr>fClusterId = 3, fIndex = 0\<rparr>"

definition exTracked :: "nat \<Rightarrow> effect \<Rightarrow> (string, string, nat) RPageSourceChain" where
  "exTracked sourceIndex call =
     exChain\<lparr>effects := [call],
             fPageMapper := [(if sourceIndex = 0 then 4096 else 8192) \<mapsto> sourceIndex]\<rparr>"

definition exPage120 :: RPage where
  "exPage120 = (exPage 8192 120)\<lparr>fClusterInfo := \<lparr>fClusterInfoId = 2, fSelfOffset = 100\<rparr>\<rparr>"

definition exReleased :: "(string, string, nat) RPageSourceChain" where
  "exReleased =
     exChain\<lparr>effects := [Call_PopulatePage 1 exHandle 20, Call_ReleasePage 1 exPage120],
             fPageMapper := Map.empty\<rparr>"

text \<open>
  A source whose metadata claim \<open>2 ^ 63\<close> entries, and the chain of two such sources and
  B: the sum of the first two entry counts is \<open>2 ^ 64\<close>, and row 2 of the entry table
  is 0 again.
\<close>

definition exHuge :: "(string, string) RPageSource" where
  "exHuge = exA\<lparr>GetNEntries := 9223372036854775808\<rparr>"

definition exWrap :: "(string, string, nat) RPageSourceChain" where
  "exWrap =
     (members_init ''events'' [exHuge, exHuge, exB] 0)
       \<lparr>fDescriptor := exMerged,
        fNEntryPerSource := [0, 9223372036854775808, 0, 50],
        fNClusterPerSource := [0, 2, 4, 5],
        fNElementsPerColumnPerSource := [[0], [100], [200], [250]]\<rparr>"

text \<open>
  Sources for the compatibility check: \<open>exOther\<close> is B with another field descriptor,
  \<open>exFewer\<close> is B with no column.
\<close>

definition exOther :: "(string, string) RPageSource" where
  "exOther = exB\<lparr>GetDescriptor := exDescB\<lparr>fFieldDescriptors := [''eta'']\<rparr>\<rparr>"

definition exFewer :: "(string, string) RPageSource" where
  "exFewer = exB\<lparr>GetDescriptor := exDescB\<lparr>fColumnDescriptors := []\<rparr>\<rparr>"

definition exMixed :: "(string, string, nat) RPageSourceChain" where
  "exMixed = members_init ''events'' [exA, exB, exOther, exFewer] 0"

text \<open>
  The clone of the example chain made when the allocator is at address 3; a source with
  a column and no cluster; a source with no field, no column and no cluster, as a source
  is before it is attached, and the chain of it alone.
\<close>

definition exClone :: "(string, string, nat) RPageSourceChain" where
  "exClone =
     (members_init ''events'' [exA\<lparr>srcAddr := 3\<rparr>, exB\<lparr>srcAddr := 4\<rparr>] 0)
       \<lparr>fNEntryPerSource := [0, 100, 150], fNClusterPerSource := [0, 2, 3],
        fNElementsPerColumnPerSource := [[0], [100], [150]]\<rparr>"

definition exNoCluster :: "(string, string) RPageSource" where
  "exNoCluster = exB\<lparr>GetNEntries := 0, GetDescriptor := exDescB\<lparr>fClusterDescriptors := []\<rparr>\<rparr>"



text \<open>
  A factory for the constructor that takes locations: it opens A at \<open>a.root\<close> and B
  at every other location.
\<close>

definition exCreate :: "string \<Rightarrow> string \<Rightarrow> nat \<Rightarrow> (string, string) RPageSource" where
  "exCreate ntupleName location options = (if location = ''a.root'' then exA else exB)"

section \<open>Properties\<close>

subsection \<open>The loops of InitializeVariables\<close>

lemma fill_counts_ok:
  "length es = length srcs + 1 \<Longrightarrow> length cs = length srcs + 1 \<Longrightarrow> i \<le> length srcs \<Longrightarrow>
   \<exists>es' cs'. fill_counts i srcs es cs = Inr (es', cs') \<and>
     length es' = length srcs + 1 \<and> length cs' = length srcs + 1 \<and>
     (\<forall>k \<le> i. es' ! k = es ! k \<and> cs' ! k = cs ! k) \<and>
     (\<forall>k. i \<le> k \<and> k < length srcs \<longrightarrow>
        es' ! (k + 1) = es' ! k + GetNEntries (srcs ! k) \<and>
        cs' ! (k + 1) = cs' ! k + GetNClusters (GetDescriptor (srcs ! k)))"
proof (induction i srcs es cs rule: fill_counts.induct)
  case (1 i srcs es cs)
  show ?case
  proof (cases "i < length srcs")
    case False
    with 1 show ?thesis by (auto simp: fill_counts.simps)
  next
    case True
    define es1 where "es1 = es[i + 1 := es ! i + GetNEntries (srcs ! i)]"
    define cs1 where "cs1 = cs[i + 1 := cs ! i + GetNClusters (GetDescriptor (srcs ! i))]"
    have step: "fill_counts i srcs es cs = fill_counts (i + 1) srcs es1 cs1"
      using True "1.prems" by (subst fill_counts.simps) (simp add: vector_at_def vector_set_def es1_def cs1_def)
    have "\<exists>es' cs'. fill_counts (i + 1) srcs es1 cs1 = Inr (es', cs') \<and>
     length es' = length srcs + 1 \<and> length cs' = length srcs + 1 \<and>
     (\<forall>k \<le> i + 1. es' ! k = es1 ! k \<and> cs' ! k = cs1 ! k) \<and>
     (\<forall>k. i + 1 \<le> k \<and> k < length srcs \<longrightarrow>
        es' ! (k + 1) = es' ! k + GetNEntries (srcs ! k) \<and>
        cs' ! (k + 1) = cs' ! k + GetNClusters (GetDescriptor (srcs ! k)))"
      using True "1.prems"
      by (intro "1.IH"[of "es ! i" "srcs ! i" es1 "cs ! i" cs1])
         (simp_all add: vector_at_def vector_set_def es1_def cs1_def)
    then obtain es' cs' where r: "fill_counts (i + 1) srcs es1 cs1 = Inr (es', cs')"
      and l: "length es' = length srcs + 1" "length cs' = length srcs + 1"
      and low: "\<forall>k \<le> i + 1. es' ! k = es1 ! k \<and> cs' ! k = cs1 ! k"
      and up: "\<forall>k. i + 1 \<le> k \<and> k < length srcs \<longrightarrow>
        es' ! (k + 1) = es' ! k + GetNEntries (srcs ! k) \<and>
        cs' ! (k + 1) = cs' ! k + GetNClusters (GetDescriptor (srcs ! k))"
      by blast
    have low': "\<forall>k \<le> i. es' ! k = es ! k \<and> cs' ! k = cs ! k"
      using low by (auto simp: es1_def cs1_def)
    have at_i: "es' ! (i + 1) = es' ! i + GetNEntries (srcs ! i) \<and>
        cs' ! (i + 1) = cs' ! i + GetNClusters (GetDescriptor (srcs ! i))"
      using low low' True "1.prems" by (simp add: es1_def cs1_def)
    have up': "\<forall>k. i \<le> k \<and> k < length srcs \<longrightarrow>
        es' ! (k + 1) = es' ! k + GetNEntries (srcs ! k) \<and>
        cs' ! (k + 1) = cs' ! k + GetNClusters (GetDescriptor (srcs ! k))"
    proof (intro allI impI)
      fix k assume k: "i \<le> k \<and> k < length srcs"
      show "es' ! (k + 1) = es' ! k + GetNEntries (srcs ! k) \<and>
        cs' ! (k + 1) = cs' ! k + GetNClusters (GetDescriptor (srcs ! k))"
      proof (cases "k = i")
        case True then show ?thesis using at_i by simp
      next
        case False then show ?thesis using up k by simp
      qed
    qed
    show ?thesis using step r l low' up' by simp
  qed
qed

lemma zero_first_row_ok:
  "0 < length tbl \<Longrightarrow> length (tbl ! 0) = nColumns \<Longrightarrow> i \<le> nColumns \<Longrightarrow>
   \<exists>tbl'. zero_first_row i nColumns tbl = Inr tbl' \<and> length tbl' = length tbl \<and>
     (\<forall>r. 0 < r \<and> r < length tbl \<longrightarrow> tbl' ! r = tbl ! r) \<and>
     length (tbl' ! 0) = nColumns \<and>
     (\<forall>j. i \<le> j \<and> j < nColumns \<longrightarrow> tbl' ! 0 ! j = 0) \<and>
     (\<forall>j<i. tbl' ! 0 ! j = tbl ! 0 ! j)"
proof (induction i nColumns tbl rule: zero_first_row.induct)
  case (1 i nColumns tbl)
  show ?case
  proof (cases "i < nColumns")
    case False
    with 1 show ?thesis by (auto simp: zero_first_row.simps)
  next
    case True
    define tbl1 where "tbl1 = tbl[0 := (tbl ! 0)[i := 0]]"
    have step: "zero_first_row i nColumns tbl = zero_first_row (i + 1) nColumns tbl1"
      using True "1.prems"
      by (subst zero_first_row.simps) (simp add: vector_at_def vector_set_def tbl1_def)
    have "\<exists>tbl'. zero_first_row (i + 1) nColumns tbl1 = Inr tbl' \<and> length tbl' = length tbl1 \<and>
     (\<forall>r. 0 < r \<and> r < length tbl1 \<longrightarrow> tbl' ! r = tbl1 ! r) \<and>
     length (tbl' ! 0) = nColumns \<and>
     (\<forall>j. i + 1 \<le> j \<and> j < nColumns \<longrightarrow> tbl' ! 0 ! j = 0) \<and>
     (\<forall>j<i + 1. tbl' ! 0 ! j = tbl1 ! 0 ! j)"
      using True "1.prems" unfolding tbl1_def
      by (intro "1.IH"[of "tbl ! 0" "(tbl ! 0)[i := 0]"])
         (simp_all add: vector_at_def vector_set_def)
    then obtain tbl' where r: "zero_first_row (i + 1) nColumns tbl1 = Inr tbl'"
      and l: "length tbl' = length tbl1"
      and rows: "\<forall>r. 0 < r \<and> r < length tbl1 \<longrightarrow> tbl' ! r = tbl1 ! r"
      and l0: "length (tbl' ! 0) = nColumns"
      and up: "\<forall>j. i + 1 \<le> j \<and> j < nColumns \<longrightarrow> tbl' ! 0 ! j = 0"
      and low: "\<forall>j<i + 1. tbl' ! 0 ! j = tbl1 ! 0 ! j"
      by blast
    have up': "\<forall>j. i \<le> j \<and> j < nColumns \<longrightarrow> tbl' ! 0 ! j = 0"
    proof (intro allI impI)
      fix j assume j: "i \<le> j \<and> j < nColumns"
      show "tbl' ! 0 ! j = 0"
      proof (cases "j = i")
        case True
        then show ?thesis using low "1.prems" j by (simp add: tbl1_def)
      next
        case False
        then show ?thesis using up j by simp
      qed
    qed
    have low': "\<forall>j<i. tbl' ! 0 ! j = tbl ! 0 ! j"
      using low "1.prems" by (simp add: tbl1_def)
    have rows': "\<forall>r. 0 < r \<and> r < length tbl \<longrightarrow> tbl' ! r = tbl ! r"
      using rows by (simp add: tbl1_def)
    show ?thesis using step r l rows' l0 up' low' by (simp add: tbl1_def)
  qed
qed

lemma fill_row_ok:
  "fill_row j nColumns i srcs tbl = Inr tbl' \<Longrightarrow> i < length srcs \<Longrightarrow>
   length tbl = length srcs + 1 \<Longrightarrow> \<forall>r<length tbl. length (tbl ! r) = nColumns \<Longrightarrow>
   length tbl' = length tbl \<and> (\<forall>r<length tbl. length (tbl' ! r) = nColumns) \<and>
   (\<forall>r<length tbl. r \<noteq> i + 1 \<longrightarrow> tbl' ! r = tbl ! r) \<and>
   (\<forall>k<j. tbl' ! (i + 1) ! k = tbl ! (i + 1) ! k) \<and>
   (\<forall>k. j \<le> k \<and> k < nColumns \<longrightarrow>
      (\<exists>v. elements_of_last_cluster (srcs ! i) k = Inr v \<and>
           tbl' ! (i + 1) ! k = v + tbl ! i ! k))"
proof (induction j nColumns i srcs tbl rule: fill_row.induct)
  case (1 j nColumns i srcs tbl)
  show ?case
  proof (cases "j < nColumns")
    case False
    with "1.prems" show ?thesis by (auto simp: fill_row.simps)
  next
    case True
    from "1.prems"(1) True "1.prems"(2-)
    obtain cd cr where
      cd: "GetClusterDescriptor (GetDescriptor (srcs ! i)) (GetNClusters (GetDescriptor (srcs ! i)) - 1) = Inr cd"
      and cr: "GetColumnRange cd (of_nat j) = Inr cr"
      by (subst (asm) fill_row.simps) (auto simp: vector_at_def Let_def split: sum.splits if_splits)
    define v where "v = fFirstElementIndex cr + ucast (fNElements cr)"
    define tbl1 where "tbl1 = tbl[i + 1 := (tbl ! (i + 1))[j := v + tbl ! i ! j]]"
    have ev: "elements_of_last_cluster (srcs ! i) j = Inr v"
      by (simp add: elements_of_last_cluster_def cd cr v_def)
    have step: "fill_row j nColumns i srcs tbl = fill_row (j + 1) nColumns i srcs tbl1"
      using True "1.prems"(2-) cd cr
      by (subst fill_row.simps)
         (simp add: vector_at_def vector_set_def tbl1_def v_def Let_def add.commute add.left_commute)
    have r: "fill_row (j + 1) nColumns i srcs tbl1 = Inr tbl'"
      using step "1.prems"(1) by simp
    have shape1: "length tbl1 = length srcs + 1" "\<forall>r<length tbl1. length (tbl1 ! r) = nColumns"
      using "1.prems"(2-) by (auto simp: tbl1_def nth_list_update)
    have IH: "length tbl' = length tbl1 \<and> (\<forall>r<length tbl1. length (tbl' ! r) = nColumns) \<and>
   (\<forall>r<length tbl1. r \<noteq> i + 1 \<longrightarrow> tbl' ! r = tbl1 ! r) \<and>
   (\<forall>k<j + 1. tbl' ! (i + 1) ! k = tbl1 ! (i + 1) ! k) \<and>
   (\<forall>k. j + 1 \<le> k \<and> k < nColumns \<longrightarrow>
      (\<exists>v. elements_of_last_cluster (srcs ! i) k = Inr v \<and>
           tbl' ! (i + 1) ! k = v + tbl1 ! i ! k))"
      using True "1.prems"(2-) cd cr r shape1 unfolding tbl1_def
      by (intro "1.IH"[of "srcs ! i" "GetNClusters (GetDescriptor (srcs ! i)) - 1" cd cr
               "tbl ! i" "tbl ! i ! j" "tbl ! (i + 1)" "(tbl ! (i + 1))[j := v + tbl ! i ! j]"])
         (simp_all add: vector_at_def vector_set_def v_def add.commute add.left_commute)
    have a: "length tbl' = length tbl" using IH by (simp add: tbl1_def)
    have b: "\<forall>r<length tbl. length (tbl' ! r) = nColumns" using IH by (simp add: tbl1_def)
    have c: "\<forall>r<length tbl. r \<noteq> i + 1 \<longrightarrow> tbl' ! r = tbl ! r" using IH by (simp add: tbl1_def)
    have d: "\<forall>k<j. tbl' ! (i + 1) ! k = tbl ! (i + 1) ! k"
      using IH "1.prems"(2-) by (simp add: tbl1_def)
    have atj: "tbl' ! (i + 1) ! j = v + tbl ! i ! j"
      using IH "1.prems"(2-) True by (simp add: tbl1_def)
    have e: "\<forall>k. j \<le> k \<and> k < nColumns \<longrightarrow>
      (\<exists>v. elements_of_last_cluster (srcs ! i) k = Inr v \<and>
           tbl' ! (i + 1) ! k = v + tbl ! i ! k)"
    proof (intro allI impI)
      fix k assume k: "j \<le> k \<and> k < nColumns"
      show "\<exists>v. elements_of_last_cluster (srcs ! i) k = Inr v \<and> tbl' ! (i + 1) ! k = v + tbl ! i ! k"
      proof (cases "k = j")
        case True
        then show ?thesis using ev atj by simp
      next
        case False
        then have "\<exists>v. elements_of_last_cluster (srcs ! i) k = Inr v \<and>
           tbl' ! (i + 1) ! k = v + tbl1 ! i ! k" using IH k by simp
        then show ?thesis by (simp add: tbl1_def)
      qed
    qed
    show ?thesis using a b c d e by blast
  qed
qed

lemma fill_rows_ok:
  "fill_rows i nColumns srcs tbl = Inr tbl' \<Longrightarrow> i \<le> length srcs \<Longrightarrow>
   length tbl = length srcs + 1 \<Longrightarrow> \<forall>r<length tbl. length (tbl ! r) = nColumns \<Longrightarrow>
   length tbl' = length tbl \<and> (\<forall>r<length tbl. length (tbl' ! r) = nColumns) \<and>
   (\<forall>r\<le>i. tbl' ! r = tbl ! r) \<and>
   (\<forall>r. i \<le> r \<and> r < length srcs \<longrightarrow>
      (\<forall>k<nColumns. \<exists>v. elements_of_last_cluster (srcs ! r) k = Inr v \<and>
           tbl' ! (r + 1) ! k = v + tbl' ! r ! k))"
proof (induction i nColumns srcs tbl rule: fill_rows.induct)
  case (1 i nColumns srcs tbl)
  show ?case
  proof (cases "i < length srcs")
    case False
    with "1.prems" show ?thesis by (auto simp: fill_rows.simps)
  next
    case True
    from "1.prems"(1) True obtain tbl1 where
      row: "fill_row 0 nColumns i srcs tbl = Inr tbl1"
      and rest: "fill_rows (i + 1) nColumns srcs tbl1 = Inr tbl'"
      by (subst (asm) fill_rows.simps) (auto split: sum.splits)
    note R = fill_row_ok[OF row True "1.prems"(3) "1.prems"(4)]
    have shape1: "length tbl1 = length srcs + 1" "\<forall>r<length tbl1. length (tbl1 ! r) = nColumns"
      using R "1.prems"(3) by auto
    have IH: "length tbl' = length tbl1 \<and> (\<forall>r<length tbl1. length (tbl' ! r) = nColumns) \<and>
     (\<forall>r\<le>i + 1. tbl' ! r = tbl1 ! r) \<and>
     (\<forall>r. i + 1 \<le> r \<and> r < length srcs \<longrightarrow>
        (\<forall>k<nColumns. \<exists>v. elements_of_last_cluster (srcs ! r) k = Inr v \<and>
             tbl' ! (r + 1) ! k = v + tbl' ! r ! k))"
      using True shape1 by (intro "1.IH"[OF True row rest]) simp_all
    have a: "length tbl' = length tbl" using IH R by simp
    have b: "\<forall>r<length tbl. length (tbl' ! r) = nColumns" using IH R by simp
    have c: "\<forall>r\<le>i. tbl' ! r = tbl ! r"
    proof (intro allI impI)
      fix r assume r: "r \<le> i"
      then have "tbl' ! r = tbl1 ! r" using IH by simp
      moreover have "tbl1 ! r = tbl ! r" using R r True "1.prems"(3) by simp
      ultimately show "tbl' ! r = tbl ! r" by simp
    qed
    have d: "\<forall>r. i \<le> r \<and> r < length srcs \<longrightarrow>
      (\<forall>k<nColumns. \<exists>v. elements_of_last_cluster (srcs ! r) k = Inr v \<and>
           tbl' ! (r + 1) ! k = v + tbl' ! r ! k)"
    proof (intro allI impI)
      fix r k assume r: "i \<le> r \<and> r < length srcs" and k: "k < nColumns"
      show "\<exists>v. elements_of_last_cluster (srcs ! r) k = Inr v \<and> tbl' ! (r + 1) ! k = v + tbl' ! r ! k"
      proof (cases "r = i")
        case False
        then show ?thesis using IH r k by simp
      next
        case True
        obtain v where v: "elements_of_last_cluster (srcs ! i) k = Inr v"
          "tbl1 ! (i + 1) ! k = v + tbl ! i ! k"
          using R k by auto
        have "tbl' ! (i + 1) = tbl1 ! (i + 1)" using IH by simp
        moreover have "tbl' ! i = tbl ! i" using c by simp
        ultimately show ?thesis using v True by simp
      qed
    qed
    show ?thesis using a b c d by blast
  qed
qed

lemma build_tables_ok:
  assumes "build_tables srcs es cs els = Inr (es', cs', els')"
  shows "0 < length srcs"
    and "length es' = length srcs + 1" and "length cs' = length srcs + 1"
    and "length els' = length srcs + 1"
    and "es' ! 0 = 0" and "cs' ! 0 = 0"
    and "\<forall>r<length els'. length (els' ! r) = unat (GetNColumns (GetDescriptor (srcs ! 0)))"
    and "\<forall>k<unat (GetNColumns (GetDescriptor (srcs ! 0))). els' ! 0 ! k = 0"
    and "\<forall>i<length srcs. es' ! (i + 1) = es' ! i + GetNEntries (srcs ! i)"
    and "\<forall>i<length srcs. cs' ! (i + 1) = cs' ! i + GetNClusters (GetDescriptor (srcs ! i))"
    and "\<forall>i<length srcs. \<forall>k<unat (GetNColumns (GetDescriptor (srcs ! 0))).
           \<exists>v. elements_of_last_cluster (srcs ! i) k = Inr v \<and>
             els' ! (i + 1) ! k = els' ! i ! k + v"
proof -
  define n where "n = length srcs"
  define es2 where "es2 = (vector_resize (n + 1) 0 es)[0 := 0]"
  define cs2 where "cs2 = (vector_resize (n + 1) 0 cs)[0 := 0]"
  define nColumns where "nColumns = unat (GetNColumns (GetDescriptor (srcs ! 0)))"
  define els1 where "els1 = map (vector_resize nColumns 0) (vector_resize (n + 1) [] els)"
  have len_resize: "\<And>m d xs. length (vector_resize m d xs) = m"
    by (simp add: vector_resize_def)
  have l2: "length es2 = length srcs + 1" "length cs2 = length srcs + 1"
    by (simp_all add: es2_def cs2_def len_resize n_def)
  obtain es3 cs3 where fc: "fill_counts 0 srcs es2 cs2 = Inr (es3, cs3)"
    and l3: "length es3 = length srcs + 1" "length cs3 = length srcs + 1"
    and low3: "\<forall>k \<le> 0. es3 ! k = es2 ! k \<and> cs3 ! k = cs2 ! k"
    and rec3: "\<forall>k. 0 \<le> k \<and> k < length srcs \<longrightarrow>
        es3 ! (k + 1) = es3 ! k + GetNEntries (srcs ! k) \<and>
        cs3 ! (k + 1) = cs3 ! k + GetNClusters (GetDescriptor (srcs ! k))"
    using fill_counts_ok[OF l2, of 0] by auto
  have unfold1: "build_tables srcs es cs els =
      (case vector_at srcs 0 of Inl e \<Rightarrow> Inl e
       | Inr s0 \<Rightarrow>
          (case zero_first_row 0 (unat (GetNColumns (GetDescriptor s0)))
                 (map (vector_resize (unat (GetNColumns (GetDescriptor s0))) 0) (vector_resize (n + 1) [] els)) of
              Inl e \<Rightarrow> Inl e
            | Inr els2 \<Rightarrow>
           (case fill_rows 0 (unat (GetNColumns (GetDescriptor s0))) srcs els2 of
              Inl e \<Rightarrow> Inl e
            | Inr els3 \<Rightarrow> Inr (es3, cs3, els3))))"
  proof -
    have ne: "\<And>d xs. 0 < length (vector_resize (Suc (length srcs)) d xs)"
      by (simp only: len_resize)
    show ?thesis
      using fc ne[of 0 es] ne[of 0 cs]
      by (simp add: build_tables_def Let_def vector_set_def es2_def cs2_def n_def
               cong: sum.case_cong)
  qed
  from assms unfold1 show pos: "0 < length srcs"
    by (auto simp: vector_at_def split: if_splits)
  then have s0: "vector_at srcs 0 = Inr (srcs ! 0)" by (simp add: vector_at_def)
  have shape1: "length els1 = length srcs + 1" "\<forall>r<length els1. length (els1 ! r) = nColumns"
    by (simp_all add: els1_def len_resize n_def)
  obtain els2 where z: "zero_first_row 0 nColumns els1 = Inr els2"
    and lz: "length els2 = length els1"
    and rowsz: "\<forall>r. 0 < r \<and> r < length els1 \<longrightarrow> els2 ! r = els1 ! r"
    and l0z: "length (els2 ! 0) = nColumns"
    and zero: "\<forall>j. 0 \<le> j \<and> j < nColumns \<longrightarrow> els2 ! 0 ! j = 0"
    using zero_first_row_ok[of els1 nColumns 0] shape1 by auto
  have shape2: "length els2 = length srcs + 1" "\<forall>r<length els2. length (els2 ! r) = nColumns"
  proof -
    show "length els2 = length srcs + 1" using lz shape1 by simp
    show "\<forall>r<length els2. length (els2 ! r) = nColumns"
    proof (intro allI impI)
      fix r assume "r < length els2"
      then show "length (els2 ! r) = nColumns"
        using lz rowsz l0z shape1 by (cases "r = 0") auto
    qed
  qed
  from assms unfold1 s0 z have fr: "fill_rows 0 nColumns srcs els2 = Inr els'" and e: "es' = es3" "cs' = cs3"
    by (auto simp: nColumns_def els1_def split: sum.splits)
  note F = fill_rows_ok[OF fr _ shape2]
  show "length es' = length srcs + 1" "length cs' = length srcs + 1" using e l3 by simp_all
  show "length els' = length srcs + 1" using F shape2 by simp
  show "es' ! 0 = 0" "cs' ! 0 = 0" using e low3 l2 by (simp_all add: es2_def cs2_def len_resize)
  show "\<forall>r<length els'. length (els' ! r) = unat (GetNColumns (GetDescriptor (srcs ! 0)))"
    using F shape2 by (simp add: nColumns_def)
  show "\<forall>k<unat (GetNColumns (GetDescriptor (srcs ! 0))). els' ! 0 ! k = 0"
    using F zero by (simp add: nColumns_def)
  show "\<forall>i<length srcs. es' ! (i + 1) = es' ! i + GetNEntries (srcs ! i)"
    using rec3 e by simp
  show "\<forall>i<length srcs. cs' ! (i + 1) = cs' ! i + GetNClusters (GetDescriptor (srcs ! i))"
    using rec3 e by simp
  show "\<forall>i<length srcs. \<forall>k<unat (GetNColumns (GetDescriptor (srcs ! 0))).
           \<exists>v. elements_of_last_cluster (srcs ! i) k = Inr v \<and>
             els' ! (i + 1) ! k = els' ! i ! k + v"
    using F by (simp add: nColumns_def add.commute)
qed

subsection \<open>Prefix sums and the scan\<close>

text \<open>A table of prefix sums of machine words that never wrapped.\<close>

lemma prefix_word_sum:
  fixes tbl :: "64 word list"
  assumes z: "tbl ! 0 = 0" and r: "\<forall>i<n. tbl ! (i + 1) = tbl ! i + f i"
  shows "i \<le> n \<Longrightarrow> tbl ! i = sum_list (map f [0..<i])"
proof (induction i)
  case 0
  then show ?case using z by simp
next
  case (Suc i)
  then show ?case using r by simp
qed

lemma prefix_nat_sum:
  fixes tbl :: "64 word list"
  assumes z: "tbl ! 0 = 0" and r: "\<forall>i<n. tbl ! (i + 1) = tbl ! i + f i"
    and t: "sum_list (map (\<lambda>i. unat (f i)) [0..<n]) < 2 ^ 64"
  shows "i \<le> n \<Longrightarrow> unat (tbl ! i) = sum_list (map (\<lambda>i. unat (f i)) [0..<i])"
proof (induction i)
  case 0
  then show ?case using z by simp
next
  case (Suc i)
  have le: "sum_list (map (\<lambda>i. unat (f i)) [0..<Suc i]) \<le> sum_list (map (\<lambda>i. unat (f i)) [0..<n])"
  proof -
    have "[0..<n] = [0..<Suc i] @ [Suc i..<n]"
      using Suc.prems by (metis le_add_diff_inverse upt_add_eq_append zero_le)
    then show ?thesis by (metis le_add1 map_append sum_list.append)
  qed
  have "unat (tbl ! i) + unat (f i) < 2 ^ 64"
    using Suc le t by simp
  then have "unat (tbl ! i + f i) = unat (tbl ! i) + unat (f i)"
    by (simp add: unat_add_lem[THEN iffD1])
  then show ?case using Suc r by simp
qed

lemma prefix_sorted:
  fixes tbl :: "64 word list"
  assumes z: "tbl ! 0 = 0" and r: "\<forall>i<n. tbl ! (i + 1) = tbl ! i + f i"
    and t: "sum_list (map (\<lambda>i. unat (f i)) [0..<n]) < 2 ^ 64"
    and ab: "a \<le> b" "b \<le> n"
  shows "tbl ! a \<le> tbl ! b"
proof -
  have "[0..<b] = [0..<a] @ [a..<b]"
    using ab by (metis le_add_diff_inverse upt_add_eq_append zero_le)
  then have "sum_list (map (\<lambda>i. unat (f i)) [0..<a]) \<le> sum_list (map (\<lambda>i. unat (f i)) [0..<b])"
    by (metis le_add1 map_append sum_list.append)
  then have "unat (tbl ! a) \<le> unat (tbl ! b)"
    using prefix_nat_sum[OF z r t] ab by simp
  then show ?thesis by (simp add: word_le_nat_alt)
qed

text \<open>
  The scan returns the first index from \<open>s\<close> on whose upper bound exceeds the index
  looked for.
\<close>

lemma find_source_hit:
  "s \<le> i \<Longrightarrow> i < n \<Longrightarrow> length tbl = n + 1 \<Longrightarrow>
   \<forall>a. s < a \<and> a \<le> i \<longrightarrow> tbl ! a \<le> g \<Longrightarrow>
   g < tbl ! (i + 1) \<Longrightarrow> find_source s n g tbl = Inr i"
proof (induction s n g tbl rule: find_source.induct)
  case (1 s n g tbl)
  have sn: "s < n" using "1.prems" by simp
  have at: "vector_at tbl (s + 1) = Inr (tbl ! (s + 1))"
    using sn "1.prems" by (simp add: vector_at_def)
  show ?case
  proof (cases "g < tbl ! (s + 1)")
    case True
    have "s = i"
    proof (rule ccontr)
      assume "s \<noteq> i"
      then have "s < s + 1 \<and> s + 1 \<le> i" using "1.prems" by simp
      then have "tbl ! (s + 1) \<le> g" using "1.prems" by blast
      then show False using True by simp
    qed
    then show ?thesis using sn at True by (subst find_source.simps) simp
  next
    case False
    then have "s \<noteq> i" using "1.prems" by auto
    then have si: "s + 1 \<le> i" using "1.prems" by simp
    have "find_source (s + 1) n g tbl = Inr i"
      using "1.IH"[OF sn at False si] "1.prems" by simp
    then show ?thesis using sn at False by (subst find_source.simps) simp
  qed
qed

lemma find_source_miss:
  "s \<le> n \<Longrightarrow> length tbl = n + 1 \<Longrightarrow>
   \<forall>a. s < a \<and> a \<le> n \<longrightarrow> tbl ! a \<le> g \<Longrightarrow> find_source s n g tbl = Inr n"
proof (induction s n g tbl rule: find_source.induct)
  case (1 s n g tbl)
  show ?case
  proof (cases "s < n")
    case False
    then show ?thesis using "1.prems" by (subst find_source.simps) simp
  next
    case True
    have at: "vector_at tbl (s + 1) = Inr (tbl ! (s + 1))"
      using True "1.prems" by (simp add: vector_at_def)
    have "s < s + 1 \<and> s + 1 \<le> n" using True by simp
    then have "tbl ! (s + 1) \<le> g" using "1.prems" by blast
    then have nb: "\<not> g < tbl ! (s + 1)" by simp
    have "find_source (s + 1) n g tbl = Inr n"
      using "1.IH"[OF True at nb] True "1.prems" by simp
    then show ?thesis using True at nb by (subst find_source.simps) simp
  qed
qed

text \<open>Whatever the table, the scan never reads outside it and returns an index up to \<open>n\<close>.\<close>

lemma find_source_total:
  "length tbl = n + 1 \<Longrightarrow> s \<le> n \<Longrightarrow> \<exists>k. find_source s n g tbl = Inr k \<and> s \<le> k \<and> k \<le> n"
proof (induction s n g tbl rule: find_source.induct)
  case (1 s n g tbl)
  show ?case
  proof (cases "s < n")
    case False
    then show ?thesis using "1.prems" by (subst find_source.simps) simp
  next
    case True
    have at: "vector_at tbl (s + 1) = Inr (tbl ! (s + 1))"
      using True "1.prems" by (simp add: vector_at_def)
    show ?thesis
    proof (cases "g < tbl ! (s + 1)")
      case True
      then show ?thesis using \<open>s < n\<close> at by (subst find_source.simps) simp
    next
      case False
      have "\<exists>k. find_source (s + 1) n g tbl = Inr k \<and> s + 1 \<le> k \<and> k \<le> n"
        using "1.IH"[OF True at False] True "1.prems" by simp
      then obtain k where "find_source (s + 1) n g tbl = Inr k" "s + 1 \<le> k" "k \<le> n" by blast
      then show ?thesis using True at False by (subst find_source.simps) simp
    qed
  qed
qed

subsection \<open>Evaluating the examples\<close>

lemmas accessor_defs =
  vector_at_def vector_set_def vector_resize_def GetNFields_def GetNColumns_def
  GetNClusters_def GetFieldDescriptor_def GetColumnDescriptor_def GetClusterDescriptor_def
  GetColumnRange_def GetBuffer_def IsNull_def GetGlobalRangeFirst_def SetWindow_def
  GetClusterId_def GetIndex_def RPageSource_Clone_def Attach_def warn_def emplace_def

lemmas loop_simps =
  compare_fields.simps compare_columns.simps compare_sources.simps fill_counts.simps
  zero_first_row.simps fill_row.simps fill_rows.simps find_source.simps

lemmas example_defs =
  exDescA_def exDescB_def exMerged_def exPage_def exA_def exB_def exInit_def exBuilt_def
  exChain_def exHandle_def members_init_def empty_descriptor_def

lemmas wrap_defs = exHuge_def exWrap_def

lemmas compare_defs = exOther_def exFewer_def exMixed_def first_difference_def fields_differ_def
  columns_differ_def

lemma exInit_tables: "InitializeVariables exInit = Inr exBuilt"
  by (simp add: InitializeVariables_def build_tables_def example_defs accessor_defs loop_simps)

lemma exBuilt_owned: "RPageSourceChain_owned ''events'' [exA, exB] 0 = Inr exBuilt"
  by (simp add: RPageSourceChain_owned_def CompareFileMetaData_def InitializeVariables_def
        build_tables_def example_defs accessor_defs loop_simps)

lemma exWrap_owned:
  "RPageSourceChain_owned ''events'' [exHuge, exHuge, exB] 0 =
     Inr (exWrap\<lparr>fDescriptor := empty_descriptor\<rparr>)"
  by (simp add: RPageSourceChain_owned_def CompareFileMetaData_def InitializeVariables_def
        build_tables_def wrap_defs example_defs accessor_defs loop_simps)

lemma ex_entry_120:
  "PopulatePage exChain exHandle 120 =
     (Inr exPage120, exTracked 1 (Call_PopulatePage 1 exHandle 20))"
  by (simp add: PopulatePage_def rewindow_def exTracked_def exPage120_def example_defs
        accessor_defs find_source.simps)

lemma ex_cluster_2:
  "PopulatePageCluster exChain exHandle exClusterIndex =
     (Inr ((exPage 8192 105)\<lparr>fClusterInfo := \<lparr>fClusterInfoId = 2, fSelfOffset = 100\<rparr>\<rparr>),
      exTracked 1 (Call_PopulatePageCluster 1 exHandle \<lparr>fClusterId = 0, fIndex = 5\<rparr>))"
  by (simp add: PopulatePageCluster_def rewindow_def exTracked_def exClusterIndex_def example_defs
        accessor_defs find_source.simps)

lemma ex_release:
  "ReleasePage (exTracked 1 (Call_PopulatePage 1 exHandle 20)) exPage120 = (Inr (), exReleased)"
  by (simp add: ReleasePage_def exTracked_def exReleased_def exPage120_def example_defs accessor_defs)

lemma exClone_result: "Clone 3 exChain = Inr (exClone, 5)"
  by (simp add: Clone_def RPageSourceChain_cloning_def CompareFileMetaData_def
        InitializeVariables_def build_tables_def exClone_def example_defs accessor_defs loop_simps)

subsection \<open>CompareFileMetaData\<close>

lemma field_in_range:
  "j < unat (GetNFields d) \<Longrightarrow> GetFieldDescriptor d (of_nat j) = Inr (fFieldDescriptors d ! j)"
proof -
  assume j: "j < unat (GetNFields d)"
  have le: "unat (GetNFields d) \<le> length (fFieldDescriptors d)"
    by (simp add: GetNFields_def unat_of_nat)
  have "unat (GetNFields d) < 2 ^ 64" using unsigned_less[of "GetNFields d", where ?'a = nat] by simp
  then have "j < 2 ^ 64" using j by simp
  then have "unat (of_nat j :: 64 word) = j" by (simp add: unat_of_nat)
  then show ?thesis using j le by (simp add: GetFieldDescriptor_def vector_at_def)
qed

lemma column_in_range:
  "j < unat (GetNColumns d) \<Longrightarrow> GetColumnDescriptor d (of_nat j) = Inr (fColumnDescriptors d ! j)"
proof -
  assume j: "j < unat (GetNColumns d)"
  have le: "unat (GetNColumns d) \<le> length (fColumnDescriptors d)"
    by (simp add: GetNColumns_def unat_of_nat)
  have "unat (GetNColumns d) < 2 ^ 64" using unsigned_less[of "GetNColumns d", where ?'a = nat] by simp
  then have "j < 2 ^ 64" using j by simp
  then have "unat (of_nat j :: 64 word) = j" by (simp add: unat_of_nat)
  then show ?thesis using j le by (simp add: GetColumnDescriptor_def vector_at_def)
qed

lemma compare_fields_result:
  "GetNFields d0 = GetNFields di \<Longrightarrow>
   compare_fields j d0 di c =
     Inr (if \<exists>k. j \<le> k \<and> k < unat (GetNFields d0) \<and>
               GetFieldDescriptor d0 (of_nat k) \<noteq> GetFieldDescriptor di (of_nat k)
          then degrade msg_fields c else c)"
proof (induction j d0 di c rule: compare_fields.induct)
  case (1 j d0 di c)
  show ?case
  proof (cases "j < unat (GetNFields d0)")
    case False
    then show ?thesis by (subst compare_fields.simps) auto
  next
    case True
    have r0: "GetFieldDescriptor d0 (of_nat j) = Inr (fFieldDescriptors d0 ! j)"
      using True by (rule field_in_range)
    have ri: "GetFieldDescriptor di (of_nat j) = Inr (fFieldDescriptors di ! j)"
      using True "1.prems" by (simp add: field_in_range)
    show ?thesis
    proof (cases "fFieldDescriptors d0 ! j = fFieldDescriptors di ! j")
      case False
      then have "\<exists>k. j \<le> k \<and> k < unat (GetNFields d0) \<and>
               GetFieldDescriptor d0 (of_nat k) \<noteq> GetFieldDescriptor di (of_nat k)"
        using True r0 ri by (intro exI[of _ j]) simp
      then show ?thesis using True r0 ri False
        by (subst compare_fields.simps) (simp add: degrade_def)
    next
      case eq: True
      have step: "compare_fields j d0 di c = compare_fields (j + 1) d0 di c"
        using True r0 ri eq by (subst compare_fields.simps) simp
      have iff: "(\<exists>k. j \<le> k \<and> k < unat (GetNFields d0) \<and>
               GetFieldDescriptor d0 (of_nat k) \<noteq> GetFieldDescriptor di (of_nat k)) \<longleftrightarrow>
          (\<exists>k. j + 1 \<le> k \<and> k < unat (GetNFields d0) \<and>
               GetFieldDescriptor d0 (of_nat k) \<noteq> GetFieldDescriptor di (of_nat k))"
      proof
        assume "\<exists>k. j \<le> k \<and> k < unat (GetNFields d0) \<and>
               GetFieldDescriptor d0 (of_nat k) \<noteq> GetFieldDescriptor di (of_nat k)"
        then obtain k where k: "j \<le> k" "k < unat (GetNFields d0)"
          "GetFieldDescriptor d0 (of_nat k) \<noteq> GetFieldDescriptor di (of_nat k)" by blast
        then have "k \<noteq> j" using r0 ri eq by auto
        then show "\<exists>k. j + 1 \<le> k \<and> k < unat (GetNFields d0) \<and>
               GetFieldDescriptor d0 (of_nat k) \<noteq> GetFieldDescriptor di (of_nat k)"
          using k by (intro exI[of _ k]) simp
      next
        assume "\<exists>k. j + 1 \<le> k \<and> k < unat (GetNFields d0) \<and>
               GetFieldDescriptor d0 (of_nat k) \<noteq> GetFieldDescriptor di (of_nat k)"
        then show "\<exists>k. j \<le> k \<and> k < unat (GetNFields d0) \<and>
               GetFieldDescriptor d0 (of_nat k) \<noteq> GetFieldDescriptor di (of_nat k)"
          by (metis add_leD1)
      qed
      show ?thesis
        unfolding step iff
        using "1.IH"[OF True r0 ri _ "1.prems"] eq by simp
    qed
  qed
qed

lemma compare_columns_result:
  "GetNColumns d0 = GetNColumns di \<Longrightarrow>
   compare_columns j d0 di c =
     Inr (if \<exists>k. j \<le> k \<and> k < unat (GetNColumns d0) \<and>
               GetColumnDescriptor d0 (of_nat k) \<noteq> GetColumnDescriptor di (of_nat k)
          then degrade msg_columns c else c)"
proof (induction j d0 di c rule: compare_columns.induct)
  case (1 j d0 di c)
  show ?case
  proof (cases "j < unat (GetNColumns d0)")
    case False
    then show ?thesis by (subst compare_columns.simps) auto
  next
    case True
    have r0: "GetColumnDescriptor d0 (of_nat j) = Inr (fColumnDescriptors d0 ! j)"
      using True by (rule column_in_range)
    have ri: "GetColumnDescriptor di (of_nat j) = Inr (fColumnDescriptors di ! j)"
      using True "1.prems" by (simp add: column_in_range)
    show ?thesis
    proof (cases "fColumnDescriptors d0 ! j = fColumnDescriptors di ! j")
      case False
      then have "\<exists>k. j \<le> k \<and> k < unat (GetNColumns d0) \<and>
               GetColumnDescriptor d0 (of_nat k) \<noteq> GetColumnDescriptor di (of_nat k)"
        using True r0 ri by (intro exI[of _ j]) simp
      then show ?thesis using True r0 ri False
        by (subst compare_columns.simps) (simp add: degrade_def)
    next
      case eq: True
      have step: "compare_columns j d0 di c = compare_columns (j + 1) d0 di c"
        using True r0 ri eq by (subst compare_columns.simps) simp
      have iff: "(\<exists>k. j \<le> k \<and> k < unat (GetNColumns d0) \<and>
               GetColumnDescriptor d0 (of_nat k) \<noteq> GetColumnDescriptor di (of_nat k)) \<longleftrightarrow>
          (\<exists>k. j + 1 \<le> k \<and> k < unat (GetNColumns d0) \<and>
               GetColumnDescriptor d0 (of_nat k) \<noteq> GetColumnDescriptor di (of_nat k))"
      proof
        assume "\<exists>k. j \<le> k \<and> k < unat (GetNColumns d0) \<and>
               GetColumnDescriptor d0 (of_nat k) \<noteq> GetColumnDescriptor di (of_nat k)"
        then obtain k where k: "j \<le> k" "k < unat (GetNColumns d0)"
          "GetColumnDescriptor d0 (of_nat k) \<noteq> GetColumnDescriptor di (of_nat k)" by blast
        then have "k \<noteq> j" using r0 ri eq by auto
        then show "\<exists>k. j + 1 \<le> k \<and> k < unat (GetNColumns d0) \<and>
               GetColumnDescriptor d0 (of_nat k) \<noteq> GetColumnDescriptor di (of_nat k)"
          using k by (intro exI[of _ k]) simp
      next
        assume "\<exists>k. j + 1 \<le> k \<and> k < unat (GetNColumns d0) \<and>
               GetColumnDescriptor d0 (of_nat k) \<noteq> GetColumnDescriptor di (of_nat k)"
        then show "\<exists>k. j \<le> k \<and> k < unat (GetNColumns d0) \<and>
               GetColumnDescriptor d0 (of_nat k) \<noteq> GetColumnDescriptor di (of_nat k)"
          by (metis add_leD1)
      qed
      show ?thesis
        unfolding step iff
        using "1.IH"[OF True r0 ri _ "1.prems"] eq by simp
    qed
  qed
qed

lemma compare_fields_0:
  "GetNFields d0 = GetNFields di \<Longrightarrow>
   compare_fields 0 d0 di c = Inr (if fields_differ d0 di then degrade msg_fields c else c)"
  by (simp add: compare_fields_result fields_differ_def)

lemma compare_columns_0:
  "GetNColumns d0 = GetNColumns di \<Longrightarrow>
   compare_columns 0 d0 di c = Inr (if columns_differ d0 di then degrade msg_columns c else c)"
  by (simp add: compare_columns_result columns_differ_def)

lemma compare_sources_result:
  "i \<le> length srcs \<Longrightarrow> 0 < length srcs \<Longrightarrow> \<not> fUnsafe c \<Longrightarrow>
   compare_sources i srcs c = Inr (check_against (GetDescriptor (srcs ! 0)) (drop i srcs) c)"
proof (induction i srcs c rule: compare_sources.induct)
  case (1 i srcs c)
  show ?case
  proof (cases "i < length srcs")
    case False
    then show ?thesis using "1.prems" by (subst compare_sources.simps) simp
  next
    case True
    let ?d0 = "GetDescriptor (srcs ! 0)" and ?di = "GetDescriptor (srcs ! i)"
    have a0: "vector_at srcs 0 = Inr (srcs ! 0)" using "1.prems" by (simp add: vector_at_def)
    have ai: "vector_at srcs i = Inr (srcs ! i)" using True by (simp add: vector_at_def)
    have dr: "drop i srcs = srcs ! i # drop (i + 1) srcs"
      using True by (simp add: Cons_nth_drop_Suc)
    show ?thesis
    proof (cases "GetNFields ?d0 \<noteq> GetNFields ?di \<or> GetNColumns ?d0 \<noteq> GetNColumns ?di")
      case True
      then show ?thesis using \<open>i < length srcs\<close> a0 ai
        by (subst compare_sources.simps) (auto simp: dr first_difference_def degrade_def)
    next
      case False
      then have eqf: "GetNFields ?d0 = GetNFields ?di" and eqc: "GetNColumns ?d0 = GetNColumns ?di"
        by simp_all
      show ?thesis
      proof (cases "fields_differ ?d0 ?di")
        case True
        then show ?thesis using \<open>i < length srcs\<close> a0 ai eqf eqc
          by (subst compare_sources.simps)
             (simp add: dr first_difference_def compare_fields_0 degrade_def)
      next
        case nf: False
        have cf: "compare_fields 0 ?d0 ?di c = Inr c" using nf eqf by (simp add: compare_fields_0)
        show ?thesis
        proof (cases "columns_differ ?d0 ?di")
          case True
          then show ?thesis using \<open>i < length srcs\<close> a0 ai eqf eqc nf "1.prems"
            by (subst compare_sources.simps)
               (simp add: dr first_difference_def compare_fields_0 compare_columns_0 degrade_def)
        next
          case nc: False
          have cc: "compare_columns 0 ?d0 ?di c = Inr c" using nc eqc by (simp add: compare_columns_0)
          have IH: "compare_sources (i + 1) srcs c =
              Inr (check_against ?d0 (drop (i + 1) srcs) c)"
            using "1.IH"[OF True a0 ai _ cf _ cc] False "1.prems" True by simp
          have step: "compare_sources i srcs c = compare_sources (i + 1) srcs c"
            using True a0 ai eqf eqc cf cc "1.prems"
            by (subst compare_sources.simps) simp
          show ?thesis
            unfolding step IH using eqf eqc nf nc by (simp add: dr first_difference_def)
        qed
      qed
    qed
  qed
qed

lemma CompareFileMetaData_result:
  "\<not> fUnsafe c \<Longrightarrow>
   CompareFileMetaData c =
     Inr (case fSources c of [] \<Rightarrow> c | s0 # rest \<Rightarrow> check_against (GetDescriptor s0) rest c)"
proof (cases "fSources c")
  case Nil
  then show ?thesis by (simp add: CompareFileMetaData_def compare_sources.simps)
next
  case (Cons s0 rest)
  assume "\<not> fUnsafe c"
  then show ?thesis
    using compare_sources_result[of 1 "fSources c" c] Cons by (simp add: CompareFileMetaData_def)
qed

lemma check_against_stop:
  "\<forall>x\<in>set pre. first_difference d0 (GetDescriptor x) = None \<Longrightarrow>
   first_difference d0 (GetDescriptor s) = Some msg \<Longrightarrow>
   check_against d0 (pre @ s # post) c = degrade msg c"
  by (induction pre) simp_all

lemma check_against_none:
  "\<forall>x\<in>set rest. first_difference d0 (GetDescriptor x) = None \<Longrightarrow> check_against d0 rest c = c"
  by (induction rest) simp_all

lemma first_difference_same:
  "fFieldDescriptors di = fFieldDescriptors d0 \<Longrightarrow> fColumnDescriptors di = fColumnDescriptors d0 \<Longrightarrow>
   first_difference d0 di = None"
  by (simp add: first_difference_def fields_differ_def columns_differ_def GetNFields_def
        GetNColumns_def GetFieldDescriptor_def GetColumnDescriptor_def)

subsection \<open>Constructors\<close>

lemma InitializeVariables_frame:
  "InitializeVariables c = Inr c' \<Longrightarrow>
   \<exists>es cs els.
     build_tables (fSources c) (fNEntryPerSource c) (fNClusterPerSource c)
       (fNElementsPerColumnPerSource c) = Inr (es, cs, els) \<and>
     c' = c\<lparr>fNEntryPerSource := es, fNClusterPerSource := cs,
             fNElementsPerColumnPerSource := els\<rparr>"
  by (auto simp: InitializeVariables_def split: sum.splits)

text \<open>Construction reads entry counts and descriptors only.\<close>

lemma fill_counts_cong:
  "same_metadata srcs' srcs \<Longrightarrow> fill_counts i srcs' es cs = fill_counts i srcs es cs"
proof (induction i srcs es cs rule: fill_counts.induct)
  case (1 i srcs es cs)
  show ?case
  proof (cases "i < length srcs")
    case False
    then show ?thesis using "1.prems"
      by (simp add: fill_counts.simps[of i srcs' es cs] fill_counts.simps[of i srcs es cs]
            same_metadata_def)
  next
    case True
    have l: "i < length srcs'" "GetNEntries (srcs' ! i) = GetNEntries (srcs ! i)"
      "GetDescriptor (srcs' ! i) = GetDescriptor (srcs ! i)"
      using True "1.prems" by (simp_all add: same_metadata_def)
    show ?thesis
      using True l "1.IH" "1.prems"
      by (simp add: fill_counts.simps[of i srcs' es cs] fill_counts.simps[of i srcs es cs]
            vector_at_def vector_set_def)
  qed
qed

lemma fill_row_cong:
  "same_metadata srcs' srcs \<Longrightarrow> fill_row j nColumns i srcs' tbl = fill_row j nColumns i srcs tbl"
proof (induction j nColumns i srcs tbl rule: fill_row.induct)
  case (1 j nColumns i srcs tbl)
  show ?case
  proof (cases "i < length srcs")
    case False
    then show ?thesis using "1.prems"
      by (simp add: fill_row.simps[of j nColumns i srcs' tbl] fill_row.simps[of j nColumns i srcs tbl]
            same_metadata_def vector_at_def)
  next
    case True
    have l: "i < length srcs'" "GetDescriptor (srcs' ! i) = GetDescriptor (srcs ! i)"
      using True "1.prems" by (simp_all add: same_metadata_def)
    show ?thesis
      using True l "1.IH" "1.prems"
      by (simp add: fill_row.simps[of j nColumns i srcs' tbl] fill_row.simps[of j nColumns i srcs tbl]
            vector_at_def vector_set_def Let_def split: sum.splits)
  qed
qed

lemma fill_rows_cong:
  "same_metadata srcs' srcs \<Longrightarrow> fill_rows i nColumns srcs' tbl = fill_rows i nColumns srcs tbl"
proof (induction i nColumns srcs tbl rule: fill_rows.induct)
  case (1 i nColumns srcs tbl)
  have l: "length srcs' = length srcs" using "1.prems" by (simp add: same_metadata_def)
  show ?case
    using "1.IH" "1.prems" l
    by (simp add: fill_rows.simps[of i nColumns srcs' tbl] fill_rows.simps[of i nColumns srcs tbl]
          fill_row_cong split: sum.splits)
qed

lemma build_tables_cong:
  "same_metadata srcs' srcs \<Longrightarrow> build_tables srcs' es cs els = build_tables srcs es cs els"
proof -
  assume m: "same_metadata srcs' srcs"
  then have l: "length srcs' = length srcs" by (simp add: same_metadata_def)
  have z: "vector_at srcs' 0 = Inl std_out_of_range \<and> vector_at srcs 0 = Inl std_out_of_range \<or>
     (\<exists>s0' s0. vector_at srcs' 0 = Inr s0' \<and> vector_at srcs 0 = Inr s0 \<and>
        GetDescriptor s0' = GetDescriptor s0)"
    using m by (auto simp: same_metadata_def vector_at_def)
  show ?thesis
    using z
    by (auto simp: build_tables_def Let_def l fill_counts_cong[OF m] fill_rows_cong[OF m]
          split: sum.splits)
qed








lemma check_against_frame:
  "\<exists>ws u. check_against d0 rest c = c\<lparr>effects := ws, fUnsafe := u\<rparr>"
proof (induction rest)
  case Nil
  have "c = c\<lparr>effects := effects c, fUnsafe := fUnsafe c\<rparr>" by simp
  then show ?case by (metis check_against.simps(1))
next
  case (Cons s rest)
  show ?case
  proof (cases "first_difference d0 (GetDescriptor s)")
    case None
    then show ?thesis using Cons by simp
  next
    case (Some msg)
    have "degrade msg c = c\<lparr>effects := effects c @ [Warning msg], fUnsafe := True\<rparr>"
      by (simp add: degrade_def warn_def)
    then show ?thesis using Some by (metis check_against.simps(2) option.simps(5))
  qed
qed

lemma members_init_compared:
  "\<exists>ws u. CompareFileMetaData (members_init ntupleName sources options) =
     Inr ((members_init ntupleName sources options)\<lparr>effects := ws, fUnsafe := u\<rparr>)"
proof -
  let ?c = "members_init ntupleName sources options"
  have u: "\<not> fUnsafe ?c" by (simp add: members_init_def)
  have s: "fSources ?c = sources" by (simp add: members_init_def)
  show ?thesis
  proof (cases sources)
    case Nil
    have "?c = ?c\<lparr>effects := effects ?c, fUnsafe := fUnsafe ?c\<rparr>" by simp
    then show ?thesis using CompareFileMetaData_result[OF u] s Nil by (metis list.simps(4))
  next
    case (Cons s0 rest)
    then show ?thesis
      using CompareFileMetaData_result[OF u] s check_against_frame[of "GetDescriptor s0" rest ?c]
      by auto
  qed
qed

lemma constructed:
  "(\<exists>e. build_tables sources [] [] [] = Inl e \<and>
        RPageSourceChain_owned ntupleName sources options = Inl e) \<or>
   (\<exists>es cs els ws u. build_tables sources [] [] [] = Inr (es, cs, els) \<and>
        RPageSourceChain_owned ntupleName sources options =
          Inr ((members_init ntupleName sources options)
                 \<lparr>effects := ws, fUnsafe := u, fNEntryPerSource := es,
                  fNClusterPerSource := cs, fNElementsPerColumnPerSource := els\<rparr>))"
proof -
  from members_init_compared[of ntupleName sources options] obtain ws u where
    c: "CompareFileMetaData (members_init ntupleName sources options) =
     Inr ((members_init ntupleName sources options)\<lparr>effects := ws, fUnsafe := u\<rparr>)" by blast
  let ?c1 = "(members_init ntupleName sources options)\<lparr>effects := ws, fUnsafe := u\<rparr>"
  have i: "InitializeVariables ?c1 =
      (case build_tables sources [] [] [] of
         Inl e \<Rightarrow> Inl e
       | Inr (es, cs, els) \<Rightarrow>
           Inr ((members_init ntupleName sources options)
                 \<lparr>effects := ws, fUnsafe := u, fNEntryPerSource := es,
                  fNClusterPerSource := cs, fNElementsPerColumnPerSource := els\<rparr>))"
    by (simp add: InitializeVariables_def members_init_def split: sum.splits)
  have o: "RPageSourceChain_owned ntupleName sources options = InitializeVariables ?c1"
    by (simp add: RPageSourceChain_owned_def c)
  show ?thesis
  proof (cases "build_tables sources [] [] []")
    case (Inl e)
    then show ?thesis using o i by simp
  next
    case (Inr t)
    obtain es cs els where t: "t = (es, cs, els)" by (cases t) auto
    then have "RPageSourceChain_owned ntupleName sources options =
          Inr ((members_init ntupleName sources options)
                 \<lparr>effects := ws, fUnsafe := u, fNEntryPerSource := es,
                  fNClusterPerSource := cs, fNElementsPerColumnPerSource := els\<rparr>)"
      using Inr o i by simp
    then show ?thesis using Inr t by blast
  qed
qed

lemma constructed_ok:
  assumes "RPageSourceChain_owned ntupleName sources options = Inr c"
  shows "tables_built c" and "fSources c = sources" and "fNTupleName c = ntupleName"
    and "fOptions c = options" and "fPageMapper c = Map.empty"
  using constructed[of sources ntupleName options] assms
  by (auto simp: tables_built_def members_init_def)

lemma clone_sources_result:
  "length (fst (clone_sources heap sources)) = length sources \<and>
   snd (clone_sources heap sources) = heap + length sources \<and>
   (\<forall>k<length sources. fst (clone_sources heap sources) ! k = (sources ! k)\<lparr>srcAddr := heap + k\<rparr>)"
proof (induction sources arbitrary: heap)
  case Nil
  then show ?case by simp
next
  case (Cons s sources)
  obtain rest heap' where r: "clone_sources (heap + 1) sources = (rest, heap')"
    by (cases "clone_sources (heap + 1) sources") auto
  from Cons[of "heap + 1"] r have
    l: "length rest = length sources" and h: "heap' = heap + 1 + length sources"
    and n: "\<forall>k<length sources. rest ! k = (sources ! k)\<lparr>srcAddr := heap + 1 + k\<rparr>"
    by simp_all
  have "\<forall>k<length (s # sources).
      (Attach (RPageSource_Clone heap s) # rest) ! k = ((s # sources) ! k)\<lparr>srcAddr := heap + k\<rparr>"
  proof (intro allI impI)
    fix k assume "k < length (s # sources)"
    then show "(Attach (RPageSource_Clone heap s) # rest) ! k = ((s # sources) ! k)\<lparr>srcAddr := heap + k\<rparr>"
      using n by (cases k) (simp_all add: Attach_def RPageSource_Clone_def)
  qed
  then show ?case using r l h by simp
qed

lemma clone_sources_same:
  "same_metadata (fst (clone_sources heap sources)) sources"
  using clone_sources_result[of heap sources] by (simp add: same_metadata_def)




subsection \<open>The tables of a chain\<close>

lemma total_entries_take:
  "i \<le> length srcs \<Longrightarrow>
   sum_list (map (\<lambda>k. unat (GetNEntries (srcs ! k))) [0..<i]) = total_entries (take i srcs)"
proof -
  assume "i \<le> length srcs"
  then have "map (\<lambda>k. unat (GetNEntries (srcs ! k))) [0..<i] =
      map (\<lambda>s. unat (GetNEntries s)) (take i srcs)"
    by (intro nth_equalityI) simp_all
  then show ?thesis by (simp add: total_entries_def)
qed

lemma total_clusters_take:
  "i \<le> length srcs \<Longrightarrow>
   sum_list (map (\<lambda>k. unat (GetNClusters (GetDescriptor (srcs ! k)))) [0..<i])
     \<le> total_clusters (take i srcs)"
proof -
  assume "i \<le> length srcs"
  then have "map (\<lambda>k. unat (GetNClusters (GetDescriptor (srcs ! k)))) [0..<i] =
      map (\<lambda>s. unat (GetNClusters (GetDescriptor s))) (take i srcs)"
    by (intro nth_equalityI) simp_all
  moreover have "sum_list (map (\<lambda>s. unat (GetNClusters (GetDescriptor s))) (take i srcs))
      \<le> sum_list (map (\<lambda>s. length (fClusterDescriptors (GetDescriptor s))) (take i srcs))"
    by (rule sum_list_mono) (simp add: GetNClusters_def unat_of_nat)
  ultimately show ?thesis by (simp add: total_clusters_def)
qed

lemma entry_table:
  assumes "tables_built c"
  shows "length (fNEntryPerSource c) = length (fSources c) + 1"
    and "fNEntryPerSource c ! 0 = 0"
    and "\<forall>i<length (fSources c).
           fNEntryPerSource c ! (i + 1) = fNEntryPerSource c ! i + GetNEntries (fSources c ! i)"
    and "0 < length (fSources c)"
  using build_tables_ok[OF assms[unfolded tables_built_def]] by simp_all

lemma cluster_table:
  assumes "tables_built c"
  shows "length (fNClusterPerSource c) = length (fSources c) + 1"
    and "fNClusterPerSource c ! 0 = 0"
    and "\<forall>i<length (fSources c).
           fNClusterPerSource c ! (i + 1) =
             fNClusterPerSource c ! i + GetNClusters (GetDescriptor (fSources c ! i))"
  using build_tables_ok[OF assms[unfolded tables_built_def]] by simp_all

text \<open>
  While the counts of the sources before \<open>i\<close> sum to less than \<open>2 ^ 64\<close>, the tables
  hold these sums up to row \<open>i\<close> and do not decrease up to there.
\<close>

lemma entry_table_sum:
  assumes b: "tables_built c" and i: "i \<le> length (fSources c)"
    and t: "total_entries (take i (fSources c)) < 2 ^ 64"
  shows "unat (fNEntryPerSource c ! i) = total_entries (take i (fSources c))"
proof -
  have r: "\<forall>k<i. fNEntryPerSource c ! (k + 1) = fNEntryPerSource c ! k + GetNEntries (fSources c ! k)"
    using entry_table(3)[OF b] i by simp
  have t': "sum_list (map (\<lambda>k. unat (GetNEntries (fSources c ! k))) [0..<i]) < 2 ^ 64"
    using t i by (simp add: total_entries_take)
  show ?thesis
    using prefix_nat_sum[OF entry_table(2)[OF b] r t', of i] i
    by (simp add: total_entries_take)
qed

lemma entry_table_sorted:
  assumes b: "tables_built c" and i: "i \<le> length (fSources c)"
    and t: "total_entries (take i (fSources c)) < 2 ^ 64"
  shows "\<forall>a\<le>i. fNEntryPerSource c ! a \<le> fNEntryPerSource c ! i"
proof -
  have r: "\<forall>k<i. fNEntryPerSource c ! (k + 1) = fNEntryPerSource c ! k + GetNEntries (fSources c ! k)"
    using entry_table(3)[OF b] i by simp
  have t': "sum_list (map (\<lambda>k. unat (GetNEntries (fSources c ! k))) [0..<i]) < 2 ^ 64"
    using t i by (simp add: total_entries_take)
  show ?thesis
    using prefix_sorted[OF entry_table(2)[OF b] r t', of _ i] by simp
qed

lemma cluster_table_sorted:
  assumes b: "tables_built c" and i: "i \<le> length (fSources c)"
    and t: "total_clusters (take i (fSources c)) < 2 ^ 64"
  shows "\<forall>a\<le>i. fNClusterPerSource c ! a \<le> fNClusterPerSource c ! i"
proof -
  have r: "\<forall>k<i. fNClusterPerSource c ! (k + 1) =
      fNClusterPerSource c ! k + GetNClusters (GetDescriptor (fSources c ! k))"
    using cluster_table(3)[OF b] i by simp
  have t': "sum_list (map (\<lambda>k. unat (GetNClusters (GetDescriptor (fSources c ! k)))) [0..<i]) < 2 ^ 64"
    using t total_clusters_take[OF i] by simp
  show ?thesis
    using prefix_sorted[OF cluster_table(2)[OF b] r t', of _ i] by simp
qed

subsection \<open>The two overloads of PopulatePage\<close>

lemma rewindow_chain: "snd (rewindow c columnHandle sourceIndex page clusterId) = c"
  by (simp add: rewindow_def Let_def split: sum.splits)

lemma rewindow_page:
  "rewindow c columnHandle sourceIndex page clusterId = (Inr p, c') \<Longrightarrow>
   sourceIndex < length (fNElementsPerColumnPerSource c) \<and>
   unat (fId columnHandle) < length (fNElementsPerColumnPerSource c ! sourceIndex) \<and>
   GetGlobalRangeFirst p =
     GetGlobalRangeFirst page + fNElementsPerColumnPerSource c ! sourceIndex ! unat (fId columnHandle) \<and>
   fClusterInfoId (fClusterInfo p) = clusterId \<and> GetBuffer p = GetBuffer page"
  by (auto simp: rewindow_def Let_def vector_at_def SetWindow_def GetGlobalRangeFirst_def
        GetBuffer_def split: sum.splits if_splits)

lemma PopulatePage_found:
  assumes f: "find_source 0 (length (fSources c)) globalIndex (fNEntryPerSource c) = Inr i"
    and i: "i < length (fSources c)" and l: "i < length (fNEntryPerSource c)"
  shows "PopulatePage c columnHandle globalIndex =
     (let c1 = c\<lparr>effects := effects c @
                  [Call_PopulatePage i columnHandle (globalIndex - fNEntryPerSource c ! i)]\<rparr> in
      case srcPopulatePage (fSources c ! i) columnHandle (globalIndex - fNEntryPerSource c ! i) of
        Inl e \<Rightarrow> (Inl e, c1)
      | Inr page \<Rightarrow>
          (let c2 = c1\<lparr>fPageMapper := emplace (fPageMapper c1) (GetBuffer page) i\<rparr> in
           case FindClusterId (fDescriptor c2) (fId columnHandle) globalIndex of
             Inl e \<Rightarrow> (Inl e, c2)
           | Inr clusterId \<Rightarrow> rewindow c2 columnHandle i page clusterId))"
  using i l by (simp add: PopulatePage_def f vector_at_def)

lemma PopulatePage_found_effects:
  assumes f: "find_source 0 (length (fSources c)) globalIndex (fNEntryPerSource c) = Inr i"
    and i: "i < length (fSources c)" and l: "i < length (fNEntryPerSource c)"
  shows "effects (snd (PopulatePage c columnHandle globalIndex)) =
     effects c @ [Call_PopulatePage i columnHandle (globalIndex - fNEntryPerSource c ! i)]"
  unfolding PopulatePage_found[OF f i l]
  by (simp add: Let_def rewindow_chain split: sum.splits)

lemma PopulatePageCluster_found:
  assumes f: "find_source 0 (length (fSources c)) (GetClusterId clusterIndex) (fNClusterPerSource c) = Inr i"
    and i: "i < length (fSources c)" and l: "i < length (fNClusterPerSource c)"
  shows "PopulatePageCluster c columnHandle clusterIndex =
     (let newClusterIndex =
            \<lparr>fClusterId = GetClusterId clusterIndex - fNClusterPerSource c ! i,
             fIndex = GetIndex clusterIndex\<rparr>;
          c1 = c\<lparr>effects := effects c @
                  [Call_PopulatePageCluster i columnHandle newClusterIndex]\<rparr> in
      case srcPopulatePageCluster (fSources c ! i) columnHandle newClusterIndex of
        Inl e \<Rightarrow> (Inl e, c1)
      | Inr page \<Rightarrow>
          rewindow (c1\<lparr>fPageMapper := emplace (fPageMapper c1) (GetBuffer page) i\<rparr>)
            columnHandle i page (GetClusterId clusterIndex))"
  using i l by (simp add: PopulatePageCluster_def f vector_at_def Let_def cong: sum.case_cong)

lemma PopulatePageCluster_found_effects:
  assumes f: "find_source 0 (length (fSources c)) (GetClusterId clusterIndex) (fNClusterPerSource c) = Inr i"
    and i: "i < length (fSources c)" and l: "i < length (fNClusterPerSource c)"
  shows "effects (snd (PopulatePageCluster c columnHandle clusterIndex)) =
     effects c @ [Call_PopulatePageCluster i columnHandle
        \<lparr>fClusterId = GetClusterId clusterIndex - fNClusterPerSource c ! i,
         fIndex = GetIndex clusterIndex\<rparr>]"
  unfolding PopulatePageCluster_found[OF f i l]
  by (simp add: Let_def rewindow_chain split: sum.splits)

lemma PopulatePage_success_found:
  "PopulatePage c columnHandle globalIndex = (Inr p, c') \<Longrightarrow>
   \<exists>i. find_source 0 (length (fSources c)) globalIndex (fNEntryPerSource c) = Inr i \<and>
       i < length (fSources c) \<and> i < length (fNEntryPerSource c)"
  by (auto simp: PopulatePage_def vector_at_def split: sum.splits if_splits)

lemma PopulatePageCluster_success_found:
  "PopulatePageCluster c columnHandle clusterIndex = (Inr p, c') \<Longrightarrow>
   \<exists>i. find_source 0 (length (fSources c)) (GetClusterId clusterIndex) (fNClusterPerSource c) = Inr i \<and>
       i < length (fSources c) \<and> i < length (fNClusterPerSource c)"
  by (auto simp: PopulatePageCluster_def Let_def vector_at_def split: sum.splits if_splits)

lemma PopulatePage_success:
  assumes s: "PopulatePage c columnHandle globalIndex = (Inr p, c')"
  shows "\<exists>i page.
      effects c' = effects c @
        [Call_PopulatePage i columnHandle (globalIndex - fNEntryPerSource c ! i)] \<and>
      i < length (fSources c) \<and>
      srcPopulatePage (fSources c ! i) columnHandle (globalIndex - fNEntryPerSource c ! i) = Inr page \<and>
      i < length (fNElementsPerColumnPerSource c) \<and>
      unat (fId columnHandle) < length (fNElementsPerColumnPerSource c ! i) \<and>
      GetGlobalRangeFirst p =
        GetGlobalRangeFirst page + fNElementsPerColumnPerSource c ! i ! unat (fId columnHandle) \<and>
      GetBuffer p = GetBuffer page \<and>
      fPageMapper c' = emplace (fPageMapper c) (GetBuffer page) i"
proof -
  from PopulatePage_success_found[OF s] obtain i where
    f: "find_source 0 (length (fSources c)) globalIndex (fNEntryPerSource c) = Inr i"
    and i: "i < length (fSources c)" and l: "i < length (fNEntryPerSource c)" by blast
  let ?local = "globalIndex - fNEntryPerSource c ! i"
  let ?c1 = "c\<lparr>effects := effects c @ [Call_PopulatePage i columnHandle ?local]\<rparr>"
  from s[unfolded PopulatePage_found[OF f i l]] obtain page clusterId where
    sp: "srcPopulatePage (fSources c ! i) columnHandle ?local = Inr page"
    and rw: "rewindow (?c1\<lparr>fPageMapper := emplace (fPageMapper ?c1) (GetBuffer page) i\<rparr>)
               columnHandle i page clusterId = (Inr p, c')"
    by (auto simp: Let_def split: sum.splits)
  from rw rewindow_chain[of "?c1\<lparr>fPageMapper := emplace (fPageMapper ?c1) (GetBuffer page) i\<rparr>"
      columnHandle i page clusterId]
  have c': "c' = ?c1\<lparr>fPageMapper := emplace (fPageMapper ?c1) (GetBuffer page) i\<rparr>" by simp
  from rewindow_page[OF rw] i sp c' show ?thesis by auto
qed

lemma PopulatePageCluster_success:
  assumes s: "PopulatePageCluster c columnHandle clusterIndex = (Inr p, c')"
  shows "\<exists>i page.
      effects c' = effects c @
        [Call_PopulatePageCluster i columnHandle
          \<lparr>fClusterId = GetClusterId clusterIndex - fNClusterPerSource c ! i,
           fIndex = GetIndex clusterIndex\<rparr>] \<and>
      i < length (fSources c) \<and>
      srcPopulatePageCluster (fSources c ! i) columnHandle
          \<lparr>fClusterId = GetClusterId clusterIndex - fNClusterPerSource c ! i,
           fIndex = GetIndex clusterIndex\<rparr> = Inr page \<and>
      i < length (fNElementsPerColumnPerSource c) \<and>
      unat (fId columnHandle) < length (fNElementsPerColumnPerSource c ! i) \<and>
      GetGlobalRangeFirst p =
        GetGlobalRangeFirst page + fNElementsPerColumnPerSource c ! i ! unat (fId columnHandle) \<and>
      fClusterInfoId (fClusterInfo p) = GetClusterId clusterIndex \<and>
      GetBuffer p = GetBuffer page \<and>
      fPageMapper c' = emplace (fPageMapper c) (GetBuffer page) i"
proof -
  from PopulatePageCluster_success_found[OF s] obtain i where
    f: "find_source 0 (length (fSources c)) (GetClusterId clusterIndex) (fNClusterPerSource c) = Inr i"
    and i: "i < length (fSources c)" and l: "i < length (fNClusterPerSource c)" by blast
  let ?new = "\<lparr>fClusterId = GetClusterId clusterIndex - fNClusterPerSource c ! i,
           fIndex = GetIndex clusterIndex\<rparr>"
  let ?c1 = "c\<lparr>effects := effects c @ [Call_PopulatePageCluster i columnHandle ?new]\<rparr>"
  from s[unfolded PopulatePageCluster_found[OF f i l]] obtain page where
    sp: "srcPopulatePageCluster (fSources c ! i) columnHandle ?new = Inr page"
    and rw: "rewindow (?c1\<lparr>fPageMapper := emplace (fPageMapper ?c1) (GetBuffer page) i\<rparr>)
               columnHandle i page (GetClusterId clusterIndex) = (Inr p, c')"
    by (auto simp: Let_def split: sum.splits)
  from rw rewindow_chain[of "?c1\<lparr>fPageMapper := emplace (fPageMapper ?c1) (GetBuffer page) i\<rparr>"
      columnHandle i page "GetClusterId clusterIndex"]
  have c': "c' = ?c1\<lparr>fPageMapper := emplace (fPageMapper ?c1) (GetBuffer page) i\<rparr>" by simp
  from rewindow_page[OF rw] i sp c' show ?thesis by auto
qed

subsection \<open>ReleasePage\<close>

lemma ReleasePage_tracked:
  "\<not> IsNull page \<Longrightarrow> fPageMapper c (GetBuffer page) = Some i \<Longrightarrow> i < length (fSources c) \<Longrightarrow>
   ReleasePage c page =
     (Inr (), c\<lparr>effects := effects c @ [Call_ReleasePage i page],
                fPageMapper := (fPageMapper c)(GetBuffer page := None)\<rparr>)"
  by (simp add: ReleasePage_def vector_at_def)

lemma ReleasePage_untracked:
  "\<not> IsNull page \<Longrightarrow> fPageMapper c (GetBuffer page) = None \<Longrightarrow>
   ReleasePage c page = (Inl (Fatal msg_release), c)"
  by (simp add: ReleasePage_def)

lemma ReleasePage_null: "IsNull page \<Longrightarrow> ReleasePage c page = (Inr (), c)"
  by (simp add: ReleasePage_def)

lemma emplace_tracks:
  "tracker_valid c \<Longrightarrow> i < length (fSources c) \<Longrightarrow>
   \<exists>k. emplace (fPageMapper c) b i b = Some k \<and> k < length (fSources c) \<and>
       (fPageMapper c b = None \<longrightarrow> k = i)"
  by (auto simp: emplace_def tracker_valid_def ran_def split: option.splits)

lemma emplace_valid:
  "tracker_valid c \<Longrightarrow> i < length (fSources c) \<Longrightarrow> fSources c' = fSources c \<Longrightarrow>
   fPageMapper c' = emplace (fPageMapper c) b i \<Longrightarrow> tracker_valid c'"
  by (auto simp: emplace_def tracker_valid_def ran_def split: option.splits if_splits)

lemma round_trip:
  assumes v: "tracker_valid c" and n: "\<not> IsNull p"
    and i: "i < length (fSources c)" and s: "fSources c1 = fSources c"
    and m: "fPageMapper c1 = emplace (fPageMapper c) (GetBuffer p) i"
  shows "\<exists>k c2. ReleasePage c1 p = (Inr (), c2) \<and> k < length (fSources c) \<and>
     (fPageMapper c (GetBuffer p) = None \<longrightarrow> k = i) \<and>
     effects c2 = effects c1 @ [Call_ReleasePage k p] \<and>
     fPageMapper c2 (GetBuffer p) = None \<and>
     ReleasePage c2 p = (Inl (Fatal msg_release), c2)"
proof -
  from emplace_tracks[OF v i, of "GetBuffer p"] obtain k where
    k: "fPageMapper c1 (GetBuffer p) = Some k" "k < length (fSources c)"
       "fPageMapper c (GetBuffer p) = None \<longrightarrow> k = i"
    using m by auto
  let ?c2 = "c1\<lparr>effects := effects c1 @ [Call_ReleasePage k p],
                fPageMapper := (fPageMapper c1)(GetBuffer p := None)\<rparr>"
  have r1: "ReleasePage c1 p = (Inr (), ?c2)"
    using ReleasePage_tracked[OF n k(1)] k(2) s by simp
  have r2: "ReleasePage ?c2 p = (Inl (Fatal msg_release), ?c2)"
    by (rule ReleasePage_untracked[OF n]) simp
  show ?thesis using r1 r2 k by (intro exI[of _ k] exI[of _ ?c2]) simp
qed

lemma PopulatePage_sources:
  "fSources (snd (PopulatePage c columnHandle globalIndex)) = fSources c"
  by (simp add: PopulatePage_def Let_def rewindow_chain split: sum.splits)

lemma PopulatePageCluster_sources:
  "fSources (snd (PopulatePageCluster c columnHandle clusterIndex)) = fSources c"
  by (simp add: PopulatePageCluster_def Let_def rewindow_chain split: sum.splits)

subsection \<open>The invariants of a chain\<close>

lemma cloning_owned:
  "RPageSourceChain_cloning heap ntupleName sources options = Inr (c, heap') \<Longrightarrow>
   RPageSourceChain_owned ntupleName (fst (clone_sources heap sources)) options = Inr c"
  by (auto simp: RPageSourceChain_cloning_def RPageSourceChain_owned_def
        split: prod.splits sum.splits)

lemma locations_owned:
  "RPageSourceChain_locations Create ntupleName locationVec options =
   RPageSourceChain_owned ntupleName
     (map (\<lambda>location. Attach (Create ntupleName location options)) locationVec) options"
  by (simp add: RPageSourceChain_locations_def RPageSourceChain_owned_def)

lemma PopulatePage_frame:
  "fSources (snd (PopulatePage c columnHandle globalIndex)) = fSources c \<and>
   fNEntryPerSource (snd (PopulatePage c columnHandle globalIndex)) = fNEntryPerSource c \<and>
   fNClusterPerSource (snd (PopulatePage c columnHandle globalIndex)) = fNClusterPerSource c \<and>
   fNElementsPerColumnPerSource (snd (PopulatePage c columnHandle globalIndex)) =
     fNElementsPerColumnPerSource c"
  by (simp add: PopulatePage_def Let_def rewindow_chain split: sum.splits)

lemma PopulatePageCluster_frame:
  "fSources (snd (PopulatePageCluster c columnHandle clusterIndex)) = fSources c \<and>
   fNEntryPerSource (snd (PopulatePageCluster c columnHandle clusterIndex)) = fNEntryPerSource c \<and>
   fNClusterPerSource (snd (PopulatePageCluster c columnHandle clusterIndex)) = fNClusterPerSource c \<and>
   fNElementsPerColumnPerSource (snd (PopulatePageCluster c columnHandle clusterIndex)) =
     fNElementsPerColumnPerSource c"
  by (simp add: PopulatePageCluster_def Let_def rewindow_chain split: sum.splits)

lemma ReleasePage_frame:
  "fSources (snd (ReleasePage c page)) = fSources c \<and>
   fNEntryPerSource (snd (ReleasePage c page)) = fNEntryPerSource c \<and>
   fNClusterPerSource (snd (ReleasePage c page)) = fNClusterPerSource c \<and>
   fNElementsPerColumnPerSource (snd (ReleasePage c page)) = fNElementsPerColumnPerSource c"
  by (simp add: ReleasePage_def split: sum.splits option.splits)

lemma PopulatePage_tracker:
  "fPageMapper (snd (PopulatePage c columnHandle globalIndex)) = fPageMapper c \<or>
   (\<exists>b i. i < length (fSources c) \<and>
      fPageMapper (snd (PopulatePage c columnHandle globalIndex)) = emplace (fPageMapper c) b i)"
  by (auto simp: PopulatePage_def Let_def rewindow_chain vector_at_def split: sum.splits if_splits)

lemma PopulatePageCluster_tracker:
  "fPageMapper (snd (PopulatePageCluster c columnHandle clusterIndex)) = fPageMapper c \<or>
   (\<exists>b i. i < length (fSources c) \<and>
      fPageMapper (snd (PopulatePageCluster c columnHandle clusterIndex)) =
        emplace (fPageMapper c) b i)"
  by (auto simp: PopulatePageCluster_def Let_def rewindow_chain vector_at_def
        split: sum.splits if_splits)

lemma ReleasePage_tracker_shrinks:
  "fPageMapper (snd (ReleasePage c page)) = fPageMapper c \<or>
   fPageMapper (snd (ReleasePage c page)) = (fPageMapper c)(GetBuffer page := None)"
  by (simp add: ReleasePage_def split: sum.splits option.splits)

lemma tracker_valid_erase:
  "tracker_valid c \<Longrightarrow> fSources c' = fSources c \<Longrightarrow>
   fPageMapper c' = (fPageMapper c)(b := None) \<Longrightarrow> tracker_valid c'"
  by (auto simp: tracker_valid_def ran_def split: if_splits)

lemma tracker_valid_same:
  "tracker_valid c \<Longrightarrow> fSources c' = fSources c \<Longrightarrow> fPageMapper c' = fPageMapper c \<Longrightarrow>
   tracker_valid c'"
  by (simp add: tracker_valid_def)

lemma tables_built_same:
  "tables_built c \<Longrightarrow> fSources c' = fSources c \<and> fNEntryPerSource c' = fNEntryPerSource c \<and>
   fNClusterPerSource c' = fNClusterPerSource c \<and>
   fNElementsPerColumnPerSource c' = fNElementsPerColumnPerSource c \<Longrightarrow> tables_built c'"
  by (simp add: tables_built_def)

lemma constructed_invariants:
  "RPageSourceChain_owned ntupleName sources options = Inr c \<Longrightarrow> tables_built c \<and> tracker_valid c"
  using constructed_ok(1,5)[of ntupleName sources options c] by (simp add: tracker_valid_def)

text \<open>
  In every state of a chain the tables are those the constructor built, and the tracker
  names only sources of the chain.
\<close>

lemma reachable_invariants: "reachable c \<Longrightarrow> tables_built c \<and> tracker_valid c"
proof (induction rule: reachable.induct)
  case (owned ntupleName sources options c)
  then show ?case by (rule constructed_invariants)
next
  case (cloning heap ntupleName sources options c heap')
  then show ?case by (rule constructed_invariants[OF cloning_owned])
next
  case (locations Create ntupleName locationVec options c)
  then show ?case using constructed_invariants by (simp add: locations_owned)
next
  case (attach c d)
  then show ?case by (simp add: tables_built_def tracker_valid_def)
next
  case (populate c columnHandle globalIndex)
  have t: "tables_built (snd (PopulatePage c columnHandle globalIndex))"
    using populate.IH PopulatePage_frame[of c columnHandle globalIndex]
    by (blast intro: tables_built_same)
  have "tracker_valid (snd (PopulatePage c columnHandle globalIndex))"
    using PopulatePage_tracker[of c columnHandle globalIndex]
      PopulatePage_frame[of c columnHandle globalIndex] populate.IH
    by (blast intro: tracker_valid_same emplace_valid)
  then show ?case using t by simp
next
  case (populate_cluster c columnHandle clusterIndex)
  have t: "tables_built (snd (PopulatePageCluster c columnHandle clusterIndex))"
    using populate_cluster.IH PopulatePageCluster_frame[of c columnHandle clusterIndex]
    by (blast intro: tables_built_same)
  have "tracker_valid (snd (PopulatePageCluster c columnHandle clusterIndex))"
    using PopulatePageCluster_tracker[of c columnHandle clusterIndex]
      PopulatePageCluster_frame[of c columnHandle clusterIndex] populate_cluster.IH
    by (blast intro: tracker_valid_same emplace_valid)
  then show ?case using t by simp
next
  case (release c page)
  have t: "tables_built (snd (ReleasePage c page))"
    using release.IH ReleasePage_frame[of c page] by (blast intro: tables_built_same)
  have "tracker_valid (snd (ReleasePage c page))"
    using ReleasePage_tracker_shrinks[of c page] ReleasePage_frame[of c page] release.IH
    by (blast intro: tracker_valid_same tracker_valid_erase)
  then show ?case using t by simp
qed

lemma exChain_reachable: "reachable exChain"
  unfolding exChain_def by (rule reachable.attach[OF reachable.owned[OF exBuilt_owned]])

lemma exWrap_reachable: "reachable exWrap"
proof -
  have "exWrap = (exWrap\<lparr>fDescriptor := empty_descriptor\<rparr>)\<lparr>fDescriptor := exMerged\<rparr>"
    by (simp add: exWrap_def)
  then show ?thesis
    using reachable.attach[OF reachable.owned[OF exWrap_owned], of exMerged] by simp
qed

lemma exTracked_reachable: "reachable (exTracked 1 (Call_PopulatePage 1 exHandle 20))"
  using reachable.populate[OF exChain_reachable, of exHandle 120]
  by (simp only: ex_entry_120 snd_conv)

lemma exReleased_reachable: "reachable exReleased"
  using reachable.release[OF exTracked_reachable, of exPage120]
  by (simp only: ex_release snd_conv)

section \<open>The properties of the specification\<close>

subsection \<open>C1: dispatch by global entry index\<close>

text \<open>
  C1, amended. Take a chain in any state, a source index \<open>i\<close> such that the entry
  counts of the sources before \<open>i\<close> sum to less than \<open>2 ^ 64\<close>, and a global entry
  index with \<open>fNEntryPerSource ! i \<le> globalIndex < fNEntryPerSource ! (i + 1)\<close>. Then
  \<open>PopulatePage\<close> by entry index makes one call on a source: \<open>PopulatePage\<close> of
  source \<open>i\<close> with the local index \<open>globalIndex - fNEntryPerSource ! i\<close>; and row
  \<open>i\<close> of the table is the sum of the entry counts of the sources \<open>0\<close> to \<open>i - 1\<close>.
  The call is made whatever the source and the rest of the function do after it.
\<close>

theorem PopulatePage_routes_by_entry:
  "reachable c \<Longrightarrow> i < length (fSources c) \<Longrightarrow>
   total_entries (take i (fSources c)) < 2 ^ 64 \<Longrightarrow>
   fNEntryPerSource c ! i \<le> globalIndex \<Longrightarrow> globalIndex < fNEntryPerSource c ! (i + 1) \<Longrightarrow>
   effects (snd (PopulatePage c columnHandle globalIndex)) =
     effects c @ [Call_PopulatePage i columnHandle (globalIndex - fNEntryPerSource c ! i)] \<and>
   unat (fNEntryPerSource c ! i) = total_entries (take i (fSources c))"
proof -
  assume r: "reachable c" and i: "i < length (fSources c)"
    and t: "total_entries (take i (fSources c)) < 2 ^ 64"
    and lo: "fNEntryPerSource c ! i \<le> globalIndex" and hi: "globalIndex < fNEntryPerSource c ! (i + 1)"
  have b: "tables_built c" using reachable_invariants[OF r] by simp
  have i': "i \<le> length (fSources c)" using i by simp
  have below: "\<forall>a. 0 < a \<and> a \<le> i \<longrightarrow> fNEntryPerSource c ! a \<le> globalIndex"
    using entry_table_sorted[OF b i' t] lo by auto
  have f: "find_source 0 (length (fSources c)) globalIndex (fNEntryPerSource c) = Inr i"
    using find_source_hit[OF _ i entry_table(1)[OF b] below hi] by simp
  have l: "i < length (fNEntryPerSource c)" using i entry_table(1)[OF b] by simp
  show ?thesis
    using PopulatePage_found_effects[OF f i l] entry_table_sum[OF b i' t] by simp
qed

text \<open>
  In the chain of A and B, global entry 120 lies between rows 1 and 2 of the table, 100
  and 150: source B is asked for its entry 20.
\<close>

theorem PopulatePage_routes_by_entry_witness:
  "reachable exChain \<and> 1 < length (fSources exChain) \<and>
   total_entries (take 1 (fSources exChain)) < 2 ^ 64 \<and>
   fNEntryPerSource exChain ! 1 \<le> 120 \<and> 120 < fNEntryPerSource exChain ! (1 + 1) \<and>
   effects (snd (PopulatePage exChain exHandle 120)) = [Call_PopulatePage 1 exHandle 20] \<and>
   unat (fNEntryPerSource exChain ! 1) = 100"
proof -
  have h: "1 < length (fSources exChain)" "total_entries (take 1 (fSources exChain)) < 2 ^ 64"
    "fNEntryPerSource exChain ! 1 \<le> 120" "120 < fNEntryPerSource exChain ! (1 + 1)"
    by (simp_all add: total_entries_def example_defs)
  have v: "effects exChain @ [Call_PopulatePage 1 exHandle (120 - fNEntryPerSource exChain ! 1)] =
      [Call_PopulatePage 1 exHandle 20]"
    "total_entries (take 1 (fSources exChain)) = 100"
    by (simp_all add: total_entries_def example_defs)
  show ?thesis
    using PopulatePage_routes_by_entry[OF exChain_reachable h, of exHandle] exChain_reachable h v
    by simp
qed

text \<open>
  C1 as it is stated, for every chain, fails where the table has wrapped. The sources of
  \<open>exWrap\<close> report \<open>2 ^ 63\<close>, \<open>2 ^ 63\<close> and 50 entries, the table is
  \<open>[0, 2 ^ 63, 0, 50]\<close>. Global entry 3 lies between rows 2 and 3, and the scan stops
  at the first row above 3, which is row 1: source 0 is called, not source 2.
\<close>

theorem PopulatePage_wrapped_table_counterexample:
  "reachable exWrap \<and> 2 < length (fSources exWrap) \<and>
   fNEntryPerSource exWrap ! 2 \<le> 3 \<and> 3 < fNEntryPerSource exWrap ! (2 + 1) \<and>
   effects (snd (PopulatePage exWrap exHandle 3)) = effects exWrap @ [Call_PopulatePage 0 exHandle 3] \<and>
   effects (snd (PopulatePage exWrap exHandle 3)) \<noteq>
     effects exWrap @ [Call_PopulatePage 2 exHandle (3 - fNEntryPerSource exWrap ! 2)]"
proof -
  have e: "effects (snd (PopulatePage exWrap exHandle 3)) =
      effects exWrap @ [Call_PopulatePage 0 exHandle 3]"
    by (simp add: PopulatePage_def rewindow_def wrap_defs example_defs accessor_defs
          find_source.simps)
  have h: "2 < length (fSources exWrap)" "fNEntryPerSource exWrap ! 2 \<le> 3"
     "3 < fNEntryPerSource exWrap ! (2 + 1)"
    by (simp_all add: wrap_defs example_defs)
  show ?thesis using exWrap_reachable e h by simp
qed

subsection \<open>C2: the tables that construction builds\<close>

text \<open>
  C2. Each of the three constructors, when it returns a chain, has stored its sources
  \<open>srcs\<close> (the sources handed over, the attached duplicates of the sources given by
  pointer, or the attached sources made from the locations) and has built three tables
  of length number of sources plus one. Row 0 is 0 (for the element table: 0 in every
  column of the first source's schema). Each next row adds, to the row before, the
  source's entry count, its cluster count, and for every column of the first source's
  schema the first element index plus the element count of the column's range in the
  source's cluster with the highest id. The sums are 64-bit sums, as the code adds.
\<close>

theorem construction_builds_prefix_tables:
  "RPageSourceChain_owned ntupleName sources options = Inr c \<and> srcs = sources \<or>
   RPageSourceChain_cloning heap ntupleName sources options = Inr (c, heap') \<and>
     srcs = fst (clone_sources heap sources) \<or>
   RPageSourceChain_locations Create ntupleName locationVec options = Inr c \<and>
     srcs = map (\<lambda>location. Attach (Create ntupleName location options)) locationVec \<Longrightarrow>
   fSources c = srcs \<and>
   length (fNEntryPerSource c) = length srcs + 1 \<and>
   length (fNClusterPerSource c) = length srcs + 1 \<and>
   length (fNElementsPerColumnPerSource c) = length srcs + 1 \<and>
   fNEntryPerSource c ! 0 = 0 \<and>
   fNClusterPerSource c ! 0 = 0 \<and>
   (\<forall>k<unat (GetNColumns (GetDescriptor (srcs ! 0))).
      fNElementsPerColumnPerSource c ! 0 ! k = 0) \<and>
   (\<forall>i<length srcs.
      fNEntryPerSource c ! (i + 1) = fNEntryPerSource c ! i + GetNEntries (srcs ! i)) \<and>
   (\<forall>i<length srcs.
      fNClusterPerSource c ! (i + 1) =
        fNClusterPerSource c ! i + GetNClusters (GetDescriptor (srcs ! i))) \<and>
   (\<forall>i<length srcs. \<forall>k<unat (GetNColumns (GetDescriptor (srcs ! 0))).
      \<exists>v. elements_of_last_cluster (srcs ! i) k = Inr v \<and>
        fNElementsPerColumnPerSource c ! (i + 1) ! k =
          fNElementsPerColumnPerSource c ! i ! k + v)"
proof -
  assume a: "RPageSourceChain_owned ntupleName sources options = Inr c \<and> srcs = sources \<or>
   RPageSourceChain_cloning heap ntupleName sources options = Inr (c, heap') \<and>
     srcs = fst (clone_sources heap sources) \<or>
   RPageSourceChain_locations Create ntupleName locationVec options = Inr c \<and>
     srcs = map (\<lambda>location. Attach (Create ntupleName location options)) locationVec"
  have o: "RPageSourceChain_owned ntupleName srcs options = Inr c"
    using a cloning_owned[of heap ntupleName sources options c heap']
      locations_owned[of Create ntupleName locationVec options]
    by auto
  have s: "fSources c = srcs" using constructed_ok(2)[OF o] .
  have "tables_built c" using constructed_ok(1)[OF o] .
  then have b: "build_tables srcs [] [] [] =
      Inr (fNEntryPerSource c, fNClusterPerSource c, fNElementsPerColumnPerSource c)"
    using s by (simp add: tables_built_def)
  note T = build_tables_ok[OF b]
  show ?thesis
    using s T(2-6,8-11) by blast
qed

text \<open>
  A and B handed over, given by pointer (the duplicates are at addresses 3 and 4) and
  opened from two locations: the tables are \<open>[0, 100, 150]\<close>, \<open>[0, 2, 3]\<close> and
  \<open>[[0], [100], [150]]\<close>.
\<close>

theorem construction_builds_prefix_tables_witness:
  "RPageSourceChain_owned ''events'' [exA, exB] 0 = Inr exBuilt \<and>
   RPageSourceChain_cloning 3 ''events'' [exA, exB] 0 = Inr (exClone, 5) \<and>
   fst (clone_sources 3 [exA, exB]) = [exA\<lparr>srcAddr := 3\<rparr>, exB\<lparr>srcAddr := 4\<rparr>] \<and>
   RPageSourceChain_locations exCreate ''events'' [''a.root'', ''b.root''] 0 = Inr exBuilt \<and>
   map (\<lambda>location. Attach (exCreate ''events'' location 0)) [''a.root'', ''b.root''] = [exA, exB] \<and>
   fSources exBuilt = [exA, exB] \<and>
   fSources exClone = [exA\<lparr>srcAddr := 3\<rparr>, exB\<lparr>srcAddr := 4\<rparr>] \<and>
   length (fNEntryPerSource exBuilt) = 3 \<and>
   length (fNClusterPerSource exBuilt) = 3 \<and>
   length (fNElementsPerColumnPerSource exBuilt) = 3 \<and>
   length (fNEntryPerSource exClone) = 3 \<and>
   fNEntryPerSource exBuilt ! 0 = 0 \<and>
   fNClusterPerSource exBuilt ! 0 = 0 \<and>
   fNEntryPerSource exBuilt ! 2 = fNEntryPerSource exBuilt ! 1 + GetNEntries exB \<and>
   fNClusterPerSource exBuilt ! 1 = fNClusterPerSource exBuilt ! 0 + GetNClusters exDescA \<and>
   elements_of_last_cluster exA 0 = Inr 100 \<and>
   fNElementsPerColumnPerSource exBuilt ! 1 ! 0 = fNElementsPerColumnPerSource exBuilt ! 0 ! 0 + 100 \<and>
   fNEntryPerSource exBuilt = [0, 100, 150] \<and>
   fNClusterPerSource exBuilt = [0, 2, 3] \<and>
   fNElementsPerColumnPerSource exBuilt = [[0], [100], [150]]"
proof -
  have cl: "RPageSourceChain_cloning 3 ''events'' [exA, exB] 0 = Inr (exClone, 5)"
    using exClone_result by (simp add: Clone_def example_defs)
  have cs: "fst (clone_sources 3 [exA, exB]) = [exA\<lparr>srcAddr := 3\<rparr>, exB\<lparr>srcAddr := 4\<rparr>]"
    by (simp add: RPageSource_Clone_def Attach_def)
  have m: "map (\<lambda>location. Attach (exCreate ''events'' location 0)) [''a.root'', ''b.root''] = [exA, exB]"
    by (simp add: exCreate_def Attach_def)
  have lo: "RPageSourceChain_locations exCreate ''events'' [''a.root'', ''b.root''] 0 = Inr exBuilt"
    using exBuilt_owned m by (simp add: RPageSourceChain_locations_def RPageSourceChain_owned_def)
  note T1 = construction_builds_prefix_tables[of "''events''" "[exA, exB]" "0::nat" exBuilt "[exA, exB]"]
  note T2 = construction_builds_prefix_tables[of "''events''" "[exA, exB]" "0::nat" exClone
      "[exA\<lparr>srcAddr := 3\<rparr>, exB\<lparr>srcAddr := 4\<rparr>]" 3 5]
  note T3 = construction_builds_prefix_tables[where c = exBuilt and srcs = "[exA, exB]"
      and Create = exCreate and ntupleName = "''events''"
      and locationVec = "[''a.root'', ''b.root'']" and options = "0::nat"]
  have P1: "fSources exBuilt = [exA, exB]"
    "length (fNEntryPerSource exBuilt) = 3"
    "length (fNClusterPerSource exBuilt) = 3"
    "length (fNElementsPerColumnPerSource exBuilt) = 3"
    "fNEntryPerSource exBuilt ! 0 = 0" "fNClusterPerSource exBuilt ! 0 = 0"
    using T1 exBuilt_owned by simp_all
  have P2: "fSources exClone = [exA\<lparr>srcAddr := 3\<rparr>, exB\<lparr>srcAddr := 4\<rparr>]"
    "length (fNEntryPerSource exClone) = 3"
    using T2 cl cs by simp_all
  have P3: "fSources exBuilt = [exA, exB]"
    using T3 lo m by simp
  from T1 exBuilt_owned have "\<forall>i<length [exA, exB].
      fNEntryPerSource exBuilt ! (i + 1) = fNEntryPerSource exBuilt ! i + GetNEntries ([exA, exB] ! i)"
    by blast
  then have "1 < length [exA, exB] \<longrightarrow>
      fNEntryPerSource exBuilt ! (1 + 1) = fNEntryPerSource exBuilt ! 1 + GetNEntries ([exA, exB] ! 1)"
    by blast
  then have e: "fNEntryPerSource exBuilt ! 2 = fNEntryPerSource exBuilt ! 1 + GetNEntries exB"
    by (simp add: numeral_2_eq_2)
  have rest: "fNClusterPerSource exBuilt ! 1 = fNClusterPerSource exBuilt ! 0 + GetNClusters exDescA"
    "elements_of_last_cluster exA 0 = Inr 100"
    "fNElementsPerColumnPerSource exBuilt ! 1 ! 0 = fNElementsPerColumnPerSource exBuilt ! 0 ! 0 + 100"
    "fNEntryPerSource exBuilt = [0, 100, 150]"
    "fNClusterPerSource exBuilt = [0, 2, 3]"
    "fNElementsPerColumnPerSource exBuilt = [[0], [100], [150]]"
    by (simp_all add: elements_of_last_cluster_def example_defs accessor_defs)
  show ?thesis using exBuilt_owned cl cs lo m P1 P2 e rest by blast
qed

subsection \<open>C3: the window of the returned page\<close>

text \<open>
  C3. When either overload of \<open>PopulatePage\<close> returns a page, it has called one source,
  source \<open>i\<close>, that source has returned a page, and the first element of the returned
  page's range is the first element of the source's page plus
  \<open>fNElementsPerColumnPerSource ! i ! fId\<close> for the column \<open>fId\<close> of the handle (in
  64-bit arithmetic, as the code adds).
\<close>

theorem PopulatePage_global_window:
  "(PopulatePage c columnHandle globalIndex = (Inr p, c') \<longrightarrow>
      (\<exists>i page.
         effects c' = effects c @
           [Call_PopulatePage i columnHandle (globalIndex - fNEntryPerSource c ! i)] \<and>
         i < length (fSources c) \<and>
         srcPopulatePage (fSources c ! i) columnHandle (globalIndex - fNEntryPerSource c ! i) =
           Inr page \<and>
         i < length (fNElementsPerColumnPerSource c) \<and>
         unat (fId columnHandle) < length (fNElementsPerColumnPerSource c ! i) \<and>
         GetGlobalRangeFirst p =
           GetGlobalRangeFirst page +
           fNElementsPerColumnPerSource c ! i ! unat (fId columnHandle))) \<and>
   (PopulatePageCluster c columnHandle clusterIndex = (Inr q, c'') \<longrightarrow>
      (\<exists>i page.
         effects c'' = effects c @
           [Call_PopulatePageCluster i columnHandle
             \<lparr>fClusterId = GetClusterId clusterIndex - fNClusterPerSource c ! i,
              fIndex = GetIndex clusterIndex\<rparr>] \<and>
         i < length (fSources c) \<and>
         srcPopulatePageCluster (fSources c ! i) columnHandle
             \<lparr>fClusterId = GetClusterId clusterIndex - fNClusterPerSource c ! i,
              fIndex = GetIndex clusterIndex\<rparr> = Inr page \<and>
         i < length (fNElementsPerColumnPerSource c) \<and>
         unat (fId columnHandle) < length (fNElementsPerColumnPerSource c ! i) \<and>
         GetGlobalRangeFirst q =
           GetGlobalRangeFirst page +
           fNElementsPerColumnPerSource c ! i ! unat (fId columnHandle)))"
proof (intro conjI impI)
  assume "PopulatePage c columnHandle globalIndex = (Inr p, c')"
  from PopulatePage_success[OF this] show "\<exists>i page.
         effects c' = effects c @
           [Call_PopulatePage i columnHandle (globalIndex - fNEntryPerSource c ! i)] \<and>
         i < length (fSources c) \<and>
         srcPopulatePage (fSources c ! i) columnHandle (globalIndex - fNEntryPerSource c ! i) =
           Inr page \<and>
         i < length (fNElementsPerColumnPerSource c) \<and>
         unat (fId columnHandle) < length (fNElementsPerColumnPerSource c ! i) \<and>
         GetGlobalRangeFirst p =
           GetGlobalRangeFirst page +
           fNElementsPerColumnPerSource c ! i ! unat (fId columnHandle)"
    by blast
next
  assume "PopulatePageCluster c columnHandle clusterIndex = (Inr q, c'')"
  from PopulatePageCluster_success[OF this] show "\<exists>i page.
         effects c'' = effects c @
           [Call_PopulatePageCluster i columnHandle
             \<lparr>fClusterId = GetClusterId clusterIndex - fNClusterPerSource c ! i,
              fIndex = GetIndex clusterIndex\<rparr>] \<and>
         i < length (fSources c) \<and>
         srcPopulatePageCluster (fSources c ! i) columnHandle
             \<lparr>fClusterId = GetClusterId clusterIndex - fNClusterPerSource c ! i,
              fIndex = GetIndex clusterIndex\<rparr> = Inr page \<and>
         i < length (fNElementsPerColumnPerSource c) \<and>
         unat (fId columnHandle) < length (fNElementsPerColumnPerSource c ! i) \<and>
         GetGlobalRangeFirst q =
           GetGlobalRangeFirst page +
           fNElementsPerColumnPerSource c ! i ! unat (fId columnHandle)"
    by blast
qed

text \<open>
  Source B's element base for column 0 is 100. Its page for local entry 20 starts at
  element 20 and comes back starting at 120; its page for entry 5 of its cluster 0 starts
  at element 5 and comes back starting at 105.
\<close>

theorem PopulatePage_global_window_witness:
  "PopulatePage exChain exHandle 120 =
     (Inr exPage120, exTracked 1 (Call_PopulatePage 1 exHandle 20)) \<and>
   srcPopulatePage exB exHandle 20 = Inr (exPage 8192 20) \<and>
   fNElementsPerColumnPerSource exChain ! 1 ! unat (fId exHandle) = 100 \<and>
   GetGlobalRangeFirst exPage120 = 120 \<and>
   (\<exists>i page.
      effects (exTracked 1 (Call_PopulatePage 1 exHandle 20)) = effects exChain @
        [Call_PopulatePage i exHandle (120 - fNEntryPerSource exChain ! i)] \<and>
      i < length (fSources exChain) \<and>
      srcPopulatePage (fSources exChain ! i) exHandle (120 - fNEntryPerSource exChain ! i) =
        Inr page \<and>
      i < length (fNElementsPerColumnPerSource exChain) \<and>
      unat (fId exHandle) < length (fNElementsPerColumnPerSource exChain ! i) \<and>
      GetGlobalRangeFirst exPage120 =
        GetGlobalRangeFirst page +
        fNElementsPerColumnPerSource exChain ! i ! unat (fId exHandle)) \<and>
   PopulatePageCluster exChain exHandle exClusterIndex =
     (Inr ((exPage 8192 105)\<lparr>fClusterInfo := \<lparr>fClusterInfoId = 2, fSelfOffset = 100\<rparr>\<rparr>),
      exTracked 1 (Call_PopulatePageCluster 1 exHandle \<lparr>fClusterId = 0, fIndex = 5\<rparr>)) \<and>
   (\<exists>i page.
      effects (exTracked 1 (Call_PopulatePageCluster 1 exHandle \<lparr>fClusterId = 0, fIndex = 5\<rparr>)) =
        effects exChain @
        [Call_PopulatePageCluster i exHandle
          \<lparr>fClusterId = GetClusterId exClusterIndex - fNClusterPerSource exChain ! i,
           fIndex = GetIndex exClusterIndex\<rparr>] \<and>
      i < length (fSources exChain) \<and>
      srcPopulatePageCluster (fSources exChain ! i) exHandle
          \<lparr>fClusterId = GetClusterId exClusterIndex - fNClusterPerSource exChain ! i,
           fIndex = GetIndex exClusterIndex\<rparr> = Inr page \<and>
      i < length (fNElementsPerColumnPerSource exChain) \<and>
      unat (fId exHandle) < length (fNElementsPerColumnPerSource exChain ! i) \<and>
      GetGlobalRangeFirst
        ((exPage 8192 105)\<lparr>fClusterInfo := \<lparr>fClusterInfoId = 2, fSelfOffset = 100\<rparr>\<rparr>) =
        GetGlobalRangeFirst page +
        fNElementsPerColumnPerSource exChain ! i ! unat (fId exHandle))"
proof -
  note T = PopulatePage_global_window[of exChain exHandle 120 _ _ exClusterIndex]
  have v: "srcPopulatePage exB exHandle 20 = Inr (exPage 8192 20)"
    "fNElementsPerColumnPerSource exChain ! 1 ! unat (fId exHandle) = 100"
    "GetGlobalRangeFirst exPage120 = 120"
    by (simp_all add: exPage120_def GetGlobalRangeFirst_def example_defs)
  show ?thesis
    using T[THEN conjunct1, THEN mp, OF ex_entry_120] T[THEN conjunct2, THEN mp, OF ex_cluster_2]
      ex_entry_120 ex_cluster_2 v
    by blast
qed

subsection \<open>C4: dispatch by cluster index\<close>

text \<open>
  C4. Take a chain in any state, a source index \<open>i\<close> and a cluster index whose global
  cluster id lies in \<open>fNClusterPerSource ! i \<le> clusterId < fNClusterPerSource ! (i + 1)\<close>.
  Then \<open>PopulatePage\<close> by cluster index makes one call on a source: \<open>PopulatePage\<close>
  of source \<open>i\<close> with the cluster id \<open>clusterId - fNClusterPerSource ! i\<close> and the
  index within the cluster as it came; and a page that is returned carries the global
  \<open>clusterId\<close> in its cluster attribution. The cluster counts are sizes of the
  descriptors' containers, which all sit in one 64-bit address space, so those of the
  sources before \<open>i\<close> sum to less than \<open>2 ^ 64\<close>; a list has no such bound, and the
  theorem says it.
\<close>

theorem PopulatePageCluster_routes:
  "reachable c \<Longrightarrow> i < length (fSources c) \<Longrightarrow>
   total_clusters (take i (fSources c)) < 2 ^ 64 \<Longrightarrow>
   fNClusterPerSource c ! i \<le> GetClusterId clusterIndex \<Longrightarrow>
   GetClusterId clusterIndex < fNClusterPerSource c ! (i + 1) \<Longrightarrow>
   effects (snd (PopulatePageCluster c columnHandle clusterIndex)) =
     effects c @
     [Call_PopulatePageCluster i columnHandle
       \<lparr>fClusterId = GetClusterId clusterIndex - fNClusterPerSource c ! i,
        fIndex = GetIndex clusterIndex\<rparr>] \<and>
   (\<forall>p. fst (PopulatePageCluster c columnHandle clusterIndex) = Inr p \<longrightarrow>
      fClusterInfoId (fClusterInfo p) = GetClusterId clusterIndex)"
proof -
  assume r: "reachable c" and i: "i < length (fSources c)"
    and t: "total_clusters (take i (fSources c)) < 2 ^ 64"
    and lo: "fNClusterPerSource c ! i \<le> GetClusterId clusterIndex"
    and hi: "GetClusterId clusterIndex < fNClusterPerSource c ! (i + 1)"
  have b: "tables_built c" using reachable_invariants[OF r] by simp
  have i': "i \<le> length (fSources c)" using i by simp
  have below: "\<forall>a. 0 < a \<and> a \<le> i \<longrightarrow> fNClusterPerSource c ! a \<le> GetClusterId clusterIndex"
    using cluster_table_sorted[OF b i' t] lo by auto
  have f: "find_source 0 (length (fSources c)) (GetClusterId clusterIndex) (fNClusterPerSource c) = Inr i"
    using find_source_hit[OF _ i cluster_table(1)[OF b] below hi] by simp
  have l: "i < length (fNClusterPerSource c)" using i cluster_table(1)[OF b] by simp
  have attr: "\<forall>p. fst (PopulatePageCluster c columnHandle clusterIndex) = Inr p \<longrightarrow>
      fClusterInfoId (fClusterInfo p) = GetClusterId clusterIndex"
  proof (intro allI impI)
    fix p assume "fst (PopulatePageCluster c columnHandle clusterIndex) = Inr p"
    then have "PopulatePageCluster c columnHandle clusterIndex =
        (Inr p, snd (PopulatePageCluster c columnHandle clusterIndex))"
      by (metis prod.collapse)
    from PopulatePageCluster_success[OF this]
    show "fClusterInfoId (fClusterInfo p) = GetClusterId clusterIndex" by blast
  qed
  show ?thesis
    using PopulatePageCluster_found_effects[OF f i l] attr by simp
qed

text \<open>
  In the chain of A and B the cluster table is \<open>[0, 2, 3]\<close>: global cluster 2 is
  cluster 0 of source B, and the page comes back attributed to cluster 2.
\<close>

theorem PopulatePageCluster_routes_witness:
  "reachable exChain \<and> 1 < length (fSources exChain) \<and>
   total_clusters (take 1 (fSources exChain)) < 2 ^ 64 \<and>
   fNClusterPerSource exChain ! 1 \<le> GetClusterId exClusterIndex \<and>
   GetClusterId exClusterIndex < fNClusterPerSource exChain ! (1 + 1) \<and>
   effects (snd (PopulatePageCluster exChain exHandle exClusterIndex)) =
     [Call_PopulatePageCluster 1 exHandle \<lparr>fClusterId = 0, fIndex = 5\<rparr>] \<and>
   fst (PopulatePageCluster exChain exHandle exClusterIndex) =
     Inr ((exPage 8192 105)\<lparr>fClusterInfo := \<lparr>fClusterInfoId = 2, fSelfOffset = 100\<rparr>\<rparr>) \<and>
   fClusterInfoId (fClusterInfo
     ((exPage 8192 105)\<lparr>fClusterInfo := \<lparr>fClusterInfoId = 2, fSelfOffset = 100\<rparr>\<rparr>)) = 2"
proof -
  have h: "1 < length (fSources exChain)" "total_clusters (take 1 (fSources exChain)) < 2 ^ 64"
    "fNClusterPerSource exChain ! 1 \<le> GetClusterId exClusterIndex"
    "GetClusterId exClusterIndex < fNClusterPerSource exChain ! (1 + 1)"
    by (simp_all add: total_clusters_def exClusterIndex_def GetClusterId_def example_defs)
  have v: "effects exChain @
     [Call_PopulatePageCluster 1 exHandle
       \<lparr>fClusterId = GetClusterId exClusterIndex - fNClusterPerSource exChain ! 1,
        fIndex = GetIndex exClusterIndex\<rparr>] =
     [Call_PopulatePageCluster 1 exHandle \<lparr>fClusterId = 0, fIndex = 5\<rparr>]"
    "GetClusterId exClusterIndex = 2"
    by (simp_all add: exClusterIndex_def GetClusterId_def GetIndex_def example_defs)
  show ?thesis
    using PopulatePageCluster_routes[OF exChain_reachable h, of exHandle] exChain_reachable h v
      ex_cluster_2
    by simp
qed

subsection \<open>C5: Clone\<close>

text \<open>
  C5, amended. \<open>Clone\<close> of a chain in any state returns a new chain with the same
  dataset name and options, whose sources are duplicates of the chain's sources: source
  \<open>k\<close> of the new chain is the \<open>Clone()\<close> of source \<open>k\<close>, attached, a new object
  at an address no source of the chain has, with the same entry count and descriptor.
  The new chain has the same three tables, built again from the duplicates, and a
  tracker of its own, which is empty. (\<open>heap\<close>, where the allocator stands, is above
  the addresses in use.)
\<close>

theorem Clone_duplicates_sources:
  "reachable c \<Longrightarrow> \<forall>s\<in>set (fSources c). srcAddr s < heap \<Longrightarrow>
   \<exists>c'. Clone heap c = Inr (c', heap + length (fSources c)) \<and>
     reachable c' \<and>
     fNTupleName c' = fNTupleName c \<and> fOptions c' = fOptions c \<and>
     length (fSources c') = length (fSources c) \<and>
     (\<forall>k<length (fSources c). fSources c' ! k = (fSources c ! k)\<lparr>srcAddr := heap + k\<rparr>) \<and>
     (\<forall>s'\<in>set (fSources c'). \<forall>s\<in>set (fSources c). srcAddr s' \<noteq> srcAddr s) \<and>
     fNEntryPerSource c' = fNEntryPerSource c \<and>
     fNClusterPerSource c' = fNClusterPerSource c \<and>
     fNElementsPerColumnPerSource c' = fNElementsPerColumnPerSource c \<and>
     fPageMapper c' = Map.empty"
proof -
  assume r: "reachable c" and fresh: "\<forall>s\<in>set (fSources c). srcAddr s < heap"
  have b: "tables_built c" using reachable_invariants[OF r] by simp
  obtain clones heap' where cl: "clone_sources heap (fSources c) = (clones, heap')"
    by (cases "clone_sources heap (fSources c)") auto
  from clone_sources_result[of heap "fSources c"] cl have
    l: "length clones = length (fSources c)" and h: "heap' = heap + length (fSources c)"
    and n: "\<forall>k<length (fSources c). clones ! k = (fSources c ! k)\<lparr>srcAddr := heap + k\<rparr>"
    by simp_all
  have m: "same_metadata clones (fSources c)"
    using clone_sources_same[of heap "fSources c"] cl by simp
  have bt: "build_tables clones [] [] [] =
      Inr (fNEntryPerSource c, fNClusterPerSource c, fNElementsPerColumnPerSource c)"
    using b build_tables_cong[OF m] by (simp add: tables_built_def)
  from constructed[of clones "fNTupleName c" "fOptions c"] bt obtain ws u where
    o: "RPageSourceChain_owned (fNTupleName c) clones (fOptions c) =
          Inr ((members_init (fNTupleName c) clones (fOptions c))
                 \<lparr>effects := ws, fUnsafe := u, fNEntryPerSource := fNEntryPerSource c,
                  fNClusterPerSource := fNClusterPerSource c,
                  fNElementsPerColumnPerSource := fNElementsPerColumnPerSource c\<rparr>)"
    by auto
  let ?c' = "(members_init (fNTupleName c) clones (fOptions c))
                 \<lparr>effects := ws, fUnsafe := u, fNEntryPerSource := fNEntryPerSource c,
                  fNClusterPerSource := fNClusterPerSource c,
                  fNElementsPerColumnPerSource := fNElementsPerColumnPerSource c\<rparr>"
  have cl': "Clone heap c = Inr (?c', heap + length (fSources c))"
  proof -
    from members_init_compared[of "fNTupleName c" clones "fOptions c"] obtain c1 where
      c1: "CompareFileMetaData (members_init (fNTupleName c) clones (fOptions c)) = Inr c1"
      by blast
    then have "InitializeVariables c1 = Inr ?c'"
      using o by (simp add: RPageSourceChain_owned_def)
    then show ?thesis
      using c1 cl h by (simp add: Clone_def RPageSourceChain_cloning_def)
  qed
  have re: "reachable ?c'"
    using reachable.cloning[of heap "fNTupleName c" "fSources c" "fOptions c" ?c'
        "heap + length (fSources c)"] cl'
    by (simp add: Clone_def)
  have src: "fSources ?c' = clones" by (simp add: members_init_def)
  have distinct: "\<forall>s'\<in>set (fSources ?c'). \<forall>s\<in>set (fSources c). srcAddr s' \<noteq> srcAddr s"
  proof (intro ballI)
    fix s' s assume "s' \<in> set (fSources ?c')" and s: "s \<in> set (fSources c)"
    then obtain k where "k < length clones" "s' = clones ! k"
      using src by (metis in_set_conv_nth)
    then have "srcAddr s' = heap + k" using n l by simp
    then show "srcAddr s' \<noteq> srcAddr s" using fresh s by auto
  qed
  show ?thesis
    using cl' re l n distinct
    by (intro exI[of _ ?c']) (simp add: members_init_def)
qed

text \<open>
  The chain of A (at address 1) and B (at address 2), cloned when the allocator stands at
  3, gives the chain of a duplicate of A at 3 and a duplicate of B at 4.
\<close>

theorem Clone_duplicates_sources_witness:
  "reachable exChain \<and> srcAddr exA < 3 \<and> srcAddr exB < 3 \<and>
   Clone 3 exChain = Inr (exClone, 3 + length (fSources exChain)) \<and>
   reachable exClone \<and>
   fNTupleName exClone = fNTupleName exChain \<and> fOptions exClone = fOptions exChain \<and>
   fSources exClone = [exA\<lparr>srcAddr := 3\<rparr>, exB\<lparr>srcAddr := 4\<rparr>] \<and>
   fNEntryPerSource exClone = fNEntryPerSource exChain \<and>
   fPageMapper exClone = Map.empty"
proof -
  have f: "\<forall>s\<in>set (fSources exChain). srcAddr s < 3" "srcAddr exA < 3" "srcAddr exB < 3"
    by (simp_all add: example_defs)
  have v: "fSources exClone = [exA\<lparr>srcAddr := 3\<rparr>, exB\<lparr>srcAddr := 4\<rparr>]"
    "3 + length (fSources exChain) = 5"
    by (simp_all add: exClone_def example_defs)
  from Clone_duplicates_sources[OF exChain_reachable f(1)] obtain c' where
    c': "Clone 3 exChain = Inr (c', 3 + length (fSources exChain))"
    and p: "reachable c'" "fNTupleName c' = fNTupleName exChain" "fOptions c' = fOptions exChain"
      "fNEntryPerSource c' = fNEntryPerSource exChain" "fPageMapper c' = Map.empty"
    by blast
  have "c' = exClone" using c' exClone_result v by simp
  then show ?thesis using c' p f v exChain_reachable by simp
qed

text \<open>
  C5 as it is stated fails: the sources of the clone are not the sources of the chain.
  The chain holds the objects at addresses 1 and 2, its clone those at 3 and 4.
\<close>

theorem Clone_shares_sources_counterexample:
  "Clone 3 exChain = Inr (exClone, 5) \<and>
   map srcAddr (fSources exChain) = [1, 2] \<and>
   map srcAddr (fSources exClone) = [3, 4] \<and>
   fSources exClone \<noteq> fSources exChain"
proof -
  have a: "map srcAddr (fSources exChain) = [1, 2]" "map srcAddr (fSources exClone) = [3, 4]"
    by (simp_all add: exClone_def example_defs)
  then have "fSources exClone \<noteq> fSources exChain" by auto
  then show ?thesis using a exClone_result by simp
qed

subsection \<open>C6: ReleasePage\<close>

text \<open>
  C6. In any state of a chain: releasing a page that is not null and whose buffer is in
  the tracker calls \<open>ReleasePage\<close> of the source recorded for the buffer and erases the
  entry; releasing a page that is not null and whose buffer is not in the tracker fails
  the assertion and changes nothing; releasing a null page does nothing. When either
  overload of \<open>PopulatePage\<close> has returned a page that is not null, releasing it
  succeeds, calls one source, leaves the tracker without the page's buffer, and releasing
  the page once more fails the assertion.
\<close>

theorem ReleasePage_tracker:
  "(reachable c \<and> \<not> IsNull page \<and> fPageMapper c (GetBuffer page) = Some i \<longrightarrow>
      ReleasePage c page =
        (Inr (), c\<lparr>effects := effects c @ [Call_ReleasePage i page],
                   fPageMapper := (fPageMapper c)(GetBuffer page := None)\<rparr>)) \<and>
   (\<not> IsNull page \<and> fPageMapper c (GetBuffer page) = None \<longrightarrow>
      ReleasePage c page = (Inl (Fatal msg_release), c)) \<and>
   (IsNull page \<longrightarrow> ReleasePage c page = (Inr (), c)) \<and>
   (reachable c \<and> \<not> IsNull p \<and>
    (PopulatePage c columnHandle globalIndex = (Inr p, c1) \<or>
     PopulatePageCluster c columnHandle clusterIndex = (Inr p, c1)) \<longrightarrow>
      (\<exists>k c2. ReleasePage c1 p = (Inr (), c2) \<and>
         effects c2 = effects c1 @ [Call_ReleasePage k p] \<and>
         fPageMapper c2 (GetBuffer p) = None \<and>
         ReleasePage c2 p = (Inl (Fatal msg_release), c2)))"
proof (intro conjI impI)
  assume "reachable c \<and> \<not> IsNull page \<and> fPageMapper c (GetBuffer page) = Some i"
  then have n: "\<not> IsNull page" and r: "reachable c" and t: "fPageMapper c (GetBuffer page) = Some i"
    by simp_all
  have v: "tracker_valid c" using reachable_invariants[OF r] by simp
  have "i \<in> ran (fPageMapper c)" using t by (auto simp: ran_def)
  then have "i < length (fSources c)" using v by (simp add: tracker_valid_def)
  then show "ReleasePage c page =
        (Inr (), c\<lparr>effects := effects c @ [Call_ReleasePage i page],
                   fPageMapper := (fPageMapper c)(GetBuffer page := None)\<rparr>)"
    by (rule ReleasePage_tracked[OF n t])
next
  assume "\<not> IsNull page \<and> fPageMapper c (GetBuffer page) = None"
  then show "ReleasePage c page = (Inl (Fatal msg_release), c)"
    by (simp add: ReleasePage_untracked)
next
  assume "IsNull page"
  then show "ReleasePage c page = (Inr (), c)" by (rule ReleasePage_null)
next
  assume a: "reachable c \<and> \<not> IsNull p \<and>
    (PopulatePage c columnHandle globalIndex = (Inr p, c1) \<or>
     PopulatePageCluster c columnHandle clusterIndex = (Inr p, c1))"
  then have r: "reachable c" and n: "\<not> IsNull p" by simp_all
  have v: "tracker_valid c" using reachable_invariants[OF r] by simp
  from a have "\<exists>i page. i < length (fSources c) \<and> fSources c1 = fSources c \<and>
      GetBuffer p = GetBuffer page \<and> fPageMapper c1 = emplace (fPageMapper c) (GetBuffer page) i"
  proof (elim conjE disjE)
    assume s: "PopulatePage c columnHandle globalIndex = (Inr p, c1)"
    have "fSources c1 = fSources c" using PopulatePage_sources[of c columnHandle globalIndex] s by simp
    then show ?thesis using PopulatePage_success[OF s] by blast
  next
    assume s: "PopulatePageCluster c columnHandle clusterIndex = (Inr p, c1)"
    have "fSources c1 = fSources c"
      using PopulatePageCluster_sources[of c columnHandle clusterIndex] s by simp
    then show ?thesis using PopulatePageCluster_success[OF s] by blast
  qed
  then obtain i page where i: "i < length (fSources c)" and s: "fSources c1 = fSources c"
    and m: "fPageMapper c1 = emplace (fPageMapper c) (GetBuffer p) i" by auto
  from round_trip[OF v n i s m]
  show "\<exists>k c2. ReleasePage c1 p = (Inr (), c2) \<and>
         effects c2 = effects c1 @ [Call_ReleasePage k p] \<and>
         fPageMapper c2 (GetBuffer p) = None \<and>
         ReleasePage c2 p = (Inl (Fatal msg_release), c2)" by blast
qed

text \<open>
  The page read at global entry 120 has its buffer at 8192, tracked for source 1.
  Releasing it calls source 1 and empties the tracker; releasing it again fails. A page
  with no buffer is released without effect.
\<close>

theorem ReleasePage_tracker_witness:
  "reachable (exTracked 1 (Call_PopulatePage 1 exHandle 20)) \<and>
   \<not> IsNull exPage120 \<and>
   fPageMapper (exTracked 1 (Call_PopulatePage 1 exHandle 20)) (GetBuffer exPage120) = Some 1 \<and>
   ReleasePage (exTracked 1 (Call_PopulatePage 1 exHandle 20)) exPage120 = (Inr (), exReleased) \<and>
   effects exReleased = [Call_PopulatePage 1 exHandle 20, Call_ReleasePage 1 exPage120] \<and>
   fPageMapper exReleased (GetBuffer exPage120) = None \<and>
   ReleasePage exReleased exPage120 = (Inl (Fatal msg_release), exReleased) \<and>
   IsNull (exPage 0 0) \<and>
   ReleasePage exChain (exPage 0 0) = (Inr (), exChain) \<and>
   reachable exChain \<and>
   PopulatePage exChain exHandle 120 =
     (Inr exPage120, exTracked 1 (Call_PopulatePage 1 exHandle 20)) \<and>
   (\<exists>k c2. ReleasePage (exTracked 1 (Call_PopulatePage 1 exHandle 20)) exPage120 = (Inr (), c2) \<and>
      effects c2 = effects (exTracked 1 (Call_PopulatePage 1 exHandle 20)) @ [Call_ReleasePage k exPage120] \<and>
      fPageMapper c2 (GetBuffer exPage120) = None \<and>
      ReleasePage c2 exPage120 = (Inl (Fatal msg_release), c2))"
proof -
  let ?c1 = "exTracked 1 (Call_PopulatePage 1 exHandle 20)"
  have n: "\<not> IsNull exPage120" "IsNull (exPage 0 0)"
    by (simp_all add: IsNull_def exPage120_def exPage_def)
  have t: "fPageMapper ?c1 (GetBuffer exPage120) = Some 1"
    "fPageMapper exReleased (GetBuffer exPage120) = None"
    "effects exReleased = [Call_PopulatePage 1 exHandle 20, Call_ReleasePage 1 exPage120]"
    by (simp_all add: exTracked_def exReleased_def exPage120_def GetBuffer_def example_defs)
  have r1: "ReleasePage ?c1 exPage120 =
      (Inr (), ?c1\<lparr>effects := effects ?c1 @ [Call_ReleasePage 1 exPage120],
                    fPageMapper := (fPageMapper ?c1)(GetBuffer exPage120 := None)\<rparr>)"
    using ReleasePage_tracker[where page = exPage120 and c = ?c1 and i = 1, THEN conjunct1]
      n exTracked_reachable t by blast
  have r2: "ReleasePage exReleased exPage120 = (Inl (Fatal msg_release), exReleased)"
    using ReleasePage_tracker[where page = exPage120 and c = exReleased,
        THEN conjunct2, THEN conjunct1] n t by blast
  have r3: "ReleasePage exChain (exPage 0 0) = (Inr (), exChain)"
    using ReleasePage_tracker[where page = "exPage 0 0" and c = exChain,
        THEN conjunct2, THEN conjunct2, THEN conjunct1] n by blast
  have r4: "\<exists>k c2. ReleasePage ?c1 exPage120 = (Inr (), c2) \<and>
      effects c2 = effects ?c1 @ [Call_ReleasePage k exPage120] \<and>
      fPageMapper c2 (GetBuffer exPage120) = None \<and>
      ReleasePage c2 exPage120 = (Inl (Fatal msg_release), c2)"
    using ReleasePage_tracker[where c = exChain and p = exPage120 and columnHandle = exHandle
        and globalIndex = 120 and ?c1.0 = ?c1,
        THEN conjunct2, THEN conjunct2, THEN conjunct2] exChain_reachable n ex_entry_120 by blast
  show ?thesis
    using n t ex_entry_120 r1 r2 r3 r4 exTracked_reachable exChain_reachable ex_release by blast
qed

subsection \<open>C7: an index past the end\<close>

text \<open>
  C7, amended. Take a chain in any state whose entry counts sum to less than \<open>2 ^ 64\<close>,
  so that the last row of \<open>fNEntryPerSource\<close> is the number of entries of the chain.
  \<open>PopulatePage\<close> with a global entry index at or above that row fails the assertion
  \<^verbatim>\<open>R__ASSERT(sourceIndex != fSources.size() && ...)\<close>: it returns no page, reads no
  vector out of range, calls no source and leaves the chain as it is. The same holds
  for a cluster id at or above the last row of \<open>fNClusterPerSource\<close>, the cluster
  counts summing to less than \<open>2 ^ 64\<close>. The failure is that of a failed assertion, the
  one \<open>ReleasePage\<close> has too, told apart by its text only; there is no error value
  for an index out of range.
\<close>

theorem PopulatePage_beyond_total:
  "(reachable c \<and> total_entries (fSources c) < 2 ^ 64 \<and>
    fNEntryPerSource c ! length (fSources c) \<le> globalIndex \<longrightarrow>
      PopulatePage c columnHandle globalIndex = (Inl (Fatal msg_globalIndex), c) \<and>
      unat (fNEntryPerSource c ! length (fSources c)) = total_entries (fSources c)) \<and>
   (reachable c \<and> total_clusters (fSources c) < 2 ^ 64 \<and>
    fNClusterPerSource c ! length (fSources c) \<le> GetClusterId clusterIndex \<longrightarrow>
      PopulatePageCluster c columnHandle clusterIndex = (Inl (Fatal msg_clusterIndex), c))"
proof (intro conjI impI)
  assume a: "reachable c \<and> total_entries (fSources c) < 2 ^ 64 \<and>
    fNEntryPerSource c ! length (fSources c) \<le> globalIndex"
  then have r: "reachable c" and t: "total_entries (take (length (fSources c)) (fSources c)) < 2 ^ 64"
    and g: "fNEntryPerSource c ! length (fSources c) \<le> globalIndex" by simp_all
  have b: "tables_built c" using reachable_invariants[OF r] by simp
  have below: "\<forall>a. 0 < a \<and> a \<le> length (fSources c) \<longrightarrow> fNEntryPerSource c ! a \<le> globalIndex"
    using entry_table_sorted[OF b _ t] g by auto
  have f: "find_source 0 (length (fSources c)) globalIndex (fNEntryPerSource c) = Inr (length (fSources c))"
    using find_source_miss[OF _ entry_table(1)[OF b] below] by simp
  show "PopulatePage c columnHandle globalIndex = (Inl (Fatal msg_globalIndex), c)"
    by (simp add: PopulatePage_def f)
  show "unat (fNEntryPerSource c ! length (fSources c)) = total_entries (fSources c)"
    using entry_table_sum[OF b _ t] by simp
next
  assume a: "reachable c \<and> total_clusters (fSources c) < 2 ^ 64 \<and>
    fNClusterPerSource c ! length (fSources c) \<le> GetClusterId clusterIndex"
  then have r: "reachable c" and t: "total_clusters (take (length (fSources c)) (fSources c)) < 2 ^ 64"
    and g: "fNClusterPerSource c ! length (fSources c) \<le> GetClusterId clusterIndex" by simp_all
  have b: "tables_built c" using reachable_invariants[OF r] by simp
  have below: "\<forall>a. 0 < a \<and> a \<le> length (fSources c) \<longrightarrow>
      fNClusterPerSource c ! a \<le> GetClusterId clusterIndex"
    using cluster_table_sorted[OF b _ t] g by auto
  have f: "find_source 0 (length (fSources c)) (GetClusterId clusterIndex) (fNClusterPerSource c) =
      Inr (length (fSources c))"
    using find_source_miss[OF _ cluster_table(1)[OF b] below] by simp
  show "PopulatePageCluster c columnHandle clusterIndex = (Inl (Fatal msg_clusterIndex), c)"
    by (simp add: PopulatePageCluster_def f)
qed

text \<open>
  The chain of A and B has 150 entries and 3 clusters: entry 150 and cluster 3 fail the
  assertion.
\<close>

theorem PopulatePage_beyond_total_witness:
  "reachable exChain \<and> total_entries (fSources exChain) < 2 ^ 64 \<and>
   fNEntryPerSource exChain ! length (fSources exChain) \<le> 150 \<and>
   PopulatePage exChain exHandle 150 = (Inl (Fatal msg_globalIndex), exChain) \<and>
   total_clusters (fSources exChain) < 2 ^ 64 \<and>
   fNClusterPerSource exChain ! length (fSources exChain) \<le> GetClusterId exBeyond \<and>
   PopulatePageCluster exChain exHandle exBeyond = (Inl (Fatal msg_clusterIndex), exChain)"
proof -
  have h: "total_entries (fSources exChain) < 2 ^ 64"
    "fNEntryPerSource exChain ! length (fSources exChain) \<le> 150"
    "total_clusters (fSources exChain) < 2 ^ 64"
    "fNClusterPerSource exChain ! length (fSources exChain) \<le> GetClusterId exBeyond"
    by (simp_all add: total_entries_def total_clusters_def exBeyond_def GetClusterId_def example_defs)
  show ?thesis
    using PopulatePage_beyond_total[of exChain 150 exHandle exBeyond] exChain_reachable h by simp
qed

text \<open>
  C7 as it is stated fails twice. In \<open>exWrap\<close> the last row of the entry table is 50,
  global entry 60 is at or above it, and source 0 is called, since row 1 is \<open>2 ^ 63\<close>.
  And where the read fails, in the chain of A and B at entry 150, the result is the
  failed assertion, as it is for the release of a page that the chain does not track.
\<close>

theorem PopulatePage_beyond_total_counterexample:
  "reachable exWrap \<and>
   fNEntryPerSource exWrap ! length (fSources exWrap) \<le> 60 \<and>
   effects (snd (PopulatePage exWrap exHandle 60)) =
     effects exWrap @ [Call_PopulatePage 0 exHandle 60] \<and>
   fst (PopulatePage exChain exHandle 150) = Inl (Fatal msg_globalIndex) \<and>
   fst (ReleasePage exChain (exPage 4096 0)) = Inl (Fatal msg_release)"
proof -
  have e: "effects (snd (PopulatePage exWrap exHandle 60)) =
      effects exWrap @ [Call_PopulatePage 0 exHandle 60]"
    by (simp add: PopulatePage_def rewindow_def wrap_defs example_defs accessor_defs
          find_source.simps)
  have h: "fNEntryPerSource exWrap ! length (fSources exWrap) \<le> 60"
    by (simp add: wrap_defs example_defs)
  have k: "fst (PopulatePage exChain exHandle 150) = Inl (Fatal msg_globalIndex)"
    by (simp add: PopulatePage_def example_defs accessor_defs find_source.simps)
  have r: "fst (ReleasePage exChain (exPage 4096 0)) = Inl (Fatal msg_release)"
    by (simp add: ReleasePage_def example_defs accessor_defs)
  show ?thesis using exWrap_reachable e h k r by simp
qed

subsection \<open>C8: the compatibility check\<close>

text \<open>
  C8. Started with the flag unset, as in every constructor, \<open>CompareFileMetaData\<close>
  does what \<open>check_against\<close> says: it compares the sources after source 0 with source
  0, in order, each by counts, then field descriptors, then column descriptors. At the
  first source that differs it sets the flag and prints one diagnostic, that of the first
  step that found the difference, and nothing after that source is looked at: the result
  is the same whatever sources follow. When all sources have the field and column
  descriptors of the first, nothing changes and the flag stays unset.
\<close>

theorem CompareFileMetaData_first_mismatch:
  "\<not> fUnsafe c \<Longrightarrow>
   CompareFileMetaData c =
     Inr (case fSources c of [] \<Rightarrow> c | s0 # rest \<Rightarrow> check_against (GetDescriptor s0) rest c) \<and>
   (\<forall>s0 pre s post msg.
      fSources c = s0 # pre @ s # post \<and>
      (\<forall>x\<in>set pre. first_difference (GetDescriptor s0) (GetDescriptor x) = None) \<and>
      first_difference (GetDescriptor s0) (GetDescriptor s) = Some msg \<longrightarrow>
        CompareFileMetaData c = Inr (c\<lparr>effects := effects c @ [Warning msg], fUnsafe := True\<rparr>)) \<and>
   ((\<forall>s\<in>set (fSources c).
       fFieldDescriptors (GetDescriptor s) = fFieldDescriptors (GetDescriptor (hd (fSources c))) \<and>
       fColumnDescriptors (GetDescriptor s) = fColumnDescriptors (GetDescriptor (hd (fSources c)))) \<longrightarrow>
      CompareFileMetaData c = Inr c)"
proof (intro conjI allI impI)
  assume u: "\<not> fUnsafe c"
  show r: "CompareFileMetaData c =
     Inr (case fSources c of [] \<Rightarrow> c | s0 # rest \<Rightarrow> check_against (GetDescriptor s0) rest c)"
    using u by (rule CompareFileMetaData_result)
  {
    fix s0 pre s post msg
    assume a: "fSources c = s0 # pre @ s # post \<and>
      (\<forall>x\<in>set pre. first_difference (GetDescriptor s0) (GetDescriptor x) = None) \<and>
      first_difference (GetDescriptor s0) (GetDescriptor s) = Some msg"
    then have "check_against (GetDescriptor s0) (pre @ s # post) c = degrade msg c"
      by (simp add: check_against_stop)
    then show "CompareFileMetaData c = Inr (c\<lparr>effects := effects c @ [Warning msg], fUnsafe := True\<rparr>)"
      using r a by (simp add: degrade_def warn_def)
  }
  assume same: "\<forall>s\<in>set (fSources c).
       fFieldDescriptors (GetDescriptor s) = fFieldDescriptors (GetDescriptor (hd (fSources c))) \<and>
       fColumnDescriptors (GetDescriptor s) = fColumnDescriptors (GetDescriptor (hd (fSources c)))"
  show "CompareFileMetaData c = Inr c"
  proof (cases "fSources c")
    case Nil
    then show ?thesis using r by simp
  next
    case (Cons s0 rest)
    then have "\<forall>x\<in>set rest. first_difference (GetDescriptor s0) (GetDescriptor x) = None"
      using same by (simp add: first_difference_same)
    then show ?thesis using r Cons by (simp add: check_against_none)
  qed
qed

text \<open>
  Of the sources A, B, B with another field descriptor, B with no column, the third is
  the first that differs from A: one diagnostic about the fields, and the fourth source,
  whose counts differ, is not looked at. A and B alone leave the flag unset.
\<close>

theorem CompareFileMetaData_first_mismatch_witness:
  "\<not> fUnsafe exMixed \<and>
   fSources exMixed = exA # [exB] @ exOther # [exFewer] \<and>
   first_difference (GetDescriptor exA) (GetDescriptor exB) = None \<and>
   first_difference (GetDescriptor exA) (GetDescriptor exOther) = Some msg_fields \<and>
   first_difference (GetDescriptor exA) (GetDescriptor exFewer) = Some msg_counts \<and>
   CompareFileMetaData exMixed =
     Inr (exMixed\<lparr>effects := effects exMixed @ [Warning msg_fields], fUnsafe := True\<rparr>) \<and>
   \<not> fUnsafe exInit \<and>
   fFieldDescriptors (GetDescriptor exB) = fFieldDescriptors (GetDescriptor exA) \<and>
   fColumnDescriptors (GetDescriptor exB) = fColumnDescriptors (GetDescriptor exA) \<and>
   CompareFileMetaData exInit = Inr exInit"
proof -
  have u: "\<not> fUnsafe exMixed" "\<not> fUnsafe exInit"
    by (simp_all add: compare_defs example_defs)
  have s: "fSources exMixed = exA # [exB] @ exOther # [exFewer]"
    by (simp add: compare_defs example_defs)
  have d: "first_difference (GetDescriptor exA) (GetDescriptor exB) = None"
    "first_difference (GetDescriptor exA) (GetDescriptor exOther) = Some msg_fields"
    "first_difference (GetDescriptor exA) (GetDescriptor exFewer) = Some msg_counts"
    by (simp_all add: compare_defs example_defs accessor_defs)
  have e: "fFieldDescriptors (GetDescriptor exB) = fFieldDescriptors (GetDescriptor exA)"
    "fColumnDescriptors (GetDescriptor exB) = fColumnDescriptors (GetDescriptor exA)"
    by (simp_all add: example_defs)
  have pre: "\<forall>x\<in>set [exB]. first_difference (GetDescriptor exA) (GetDescriptor x) = None"
    using d by simp
  have all: "\<forall>s\<in>set (fSources exInit).
       fFieldDescriptors (GetDescriptor s) = fFieldDescriptors (GetDescriptor (hd (fSources exInit))) \<and>
       fColumnDescriptors (GetDescriptor s) = fColumnDescriptors (GetDescriptor (hd (fSources exInit)))"
    by (simp add: example_defs)
  have r1: "CompareFileMetaData exMixed =
     Inr (exMixed\<lparr>effects := effects exMixed @ [Warning msg_fields], fUnsafe := True\<rparr>)"
    using CompareFileMetaData_first_mismatch[OF u(1), THEN conjunct2, THEN conjunct1] s pre d(2)
    by blast
  have r2: "CompareFileMetaData exInit = Inr exInit"
    using CompareFileMetaData_first_mismatch[OF u(2), THEN conjunct2, THEN conjunct2] all
    by blast
  show ?thesis using u s d e r1 r2 by blast
qed

subsection \<open>C9: an empty list of sources\<close>

text \<open>
  C9, amended. No constructor looks whether its list is empty. With an empty list
  \<open>CompareFileMetaData\<close> returns without a comparison, \<open>InitializeVariables\<close> fills
  the entry and cluster tables (one row each) and then throws at \<^verbatim>\<open>fSources.at(0)\<close>:
  construction ends with the \<^verbatim>\<open>std::out_of_range\<close> of \<^verbatim>\<open>std::vector::at\<close>, in each
  of the three constructors.
\<close>

theorem empty_source_list_fails_in_InitializeVariables:
  "CompareFileMetaData (members_init ntupleName ([] :: ('f, 'c) RPageSource list) options) =
     Inr (members_init ntupleName [] options) \<and>
   fill_counts 0 ([] :: ('f, 'c) RPageSource list) [0] [0] = Inr ([0], [0]) \<and>
   vector_at ([] :: ('f, 'c) RPageSource list) 0 = Inl std_out_of_range \<and>
   InitializeVariables (members_init ntupleName ([] :: ('f, 'c) RPageSource list) options) =
     Inl std_out_of_range \<and>
   RPageSourceChain_owned ntupleName ([] :: ('f, 'c) RPageSource list) options =
     Inl std_out_of_range \<and>
   RPageSourceChain_cloning heap ntupleName ([] :: ('f, 'c) RPageSource list) options =
     Inl std_out_of_range \<and>
   RPageSourceChain_locations
       (Create :: string \<Rightarrow> string \<Rightarrow> 'o \<Rightarrow> ('f, 'c) RPageSource) ntupleName [] options =
     Inl std_out_of_range"
  by (simp add: RPageSourceChain_owned_def RPageSourceChain_cloning_def
        RPageSourceChain_locations_def CompareFileMetaData_def
        InitializeVariables_def build_tables_def members_init_def compare_sources.simps
        fill_counts.simps vector_at_def vector_set_def vector_resize_def)

theorem empty_source_list_fails_in_InitializeVariables_witness:
  "CompareFileMetaData (members_init ''events'' ([] :: (string, string) RPageSource list) (0::nat)) =
     Inr (members_init ''events'' [] 0) \<and>
   InitializeVariables (members_init ''events'' ([] :: (string, string) RPageSource list) (0::nat)) =
     Inl std_out_of_range \<and>
   RPageSourceChain_cloning 3 ''events'' ([] :: (string, string) RPageSource list) (0::nat) =
     Inl std_out_of_range"
  using empty_source_list_fails_in_InitializeVariables[of "''events''" "0::nat" 3,
      where ?'f = string and ?'c = string]
  by blast

text \<open>
  C9 as it is stated fails: the empty list is not rejected by a check of its own. The
  failure comes out of \<open>InitializeVariables\<close>, and it is the exception that a list of
  two sources gives when the second has no cluster.
\<close>

theorem empty_source_list_counterexample:
  "RPageSourceChain_owned ''events'' ([] :: (string, string) RPageSource list) (0::nat) =
     Inl std_out_of_range \<and>
   InitializeVariables (members_init ''events'' ([] :: (string, string) RPageSource list) (0::nat)) =
     Inl std_out_of_range \<and>
   RPageSourceChain_owned ''events'' [exA, exNoCluster] (0::nat) = Inl std_out_of_range"
  by (simp add: RPageSourceChain_owned_def CompareFileMetaData_def InitializeVariables_def
        build_tables_def exNoCluster_def example_defs accessor_defs loop_simps)

subsection \<open>C10: a source with no cluster\<close>




end
